theory Spec2Isabelle
  imports Complex_Main "HOL-Library.Product_Lexorder"
begin

section \<open>Circuit breaker (services/fallback\_handler.py)\<close>

text \<open>
  The class \<open>CircuitBreakerState\<close> keeps its state in a string field that only ever holds
  \<open>"closed"\<close>, \<open>"open"\<close> or \<open>"half_open"\<close>; the three values are a datatype here.
  Timestamps are the seconds returned by \<open>time.time()\<close>; every reading of the clock is
  an argument of the function that reads it.
\<close>

datatype breaker_status = Closed | Open | HalfOpen

record CircuitBreakerState =
  failure_threshold :: int
  timeout_seconds :: int
  half_open_attempts :: int
  failure_count :: int
  last_failure_time :: "real option"
  state :: breaker_status
  opened_at :: "real option"

datatype py_error = TypeError | IndexError | ZeroDivisionError

definition CircuitBreakerState_init :: "int \<Rightarrow> int \<Rightarrow> int \<Rightarrow> CircuitBreakerState" where
  "CircuitBreakerState_init threshold timeout attempts =
     \<lparr>failure_threshold = threshold, timeout_seconds = timeout, half_open_attempts = attempts,
      failure_count = 0, last_failure_time = None, state = Closed, opened_at = None\<rparr>"

definition record_success :: "CircuitBreakerState \<Rightarrow> CircuitBreakerState" where
  "record_success b =
     (let b1 = b\<lparr>failure_count := 0, last_failure_time := None\<rparr>
      in if state b1 = HalfOpen then b1\<lparr>state := Closed, opened_at := None\<rparr> else b1)"

text \<open>
  \<open>record_failure\<close> reads the clock twice: \<open>t_fail\<close> is stored as the last failure
  time, \<open>t_open\<close> as the opening time.
\<close>

definition record_failure :: "real \<Rightarrow> real \<Rightarrow> CircuitBreakerState \<Rightarrow> CircuitBreakerState" where
  "record_failure t_fail t_open b =
     (let b1 = b\<lparr>failure_count := failure_count b + 1, last_failure_time := Some t_fail\<rparr>
      in if state b1 = Closed \<and> failure_count b1 \<ge> failure_threshold b1
         then b1\<lparr>state := Open, opened_at := Some t_open\<rparr> else b1)"

text \<open>
  \<open>can_attempt\<close> answers and may change the state. In state open it subtracts
  \<open>opened_at\<close> from the clock; with \<open>opened_at = None\<close> Python raises TypeError.
\<close>

definition can_attempt :: "real \<Rightarrow> CircuitBreakerState \<Rightarrow> py_error + (bool \<times> CircuitBreakerState)" where
  "can_attempt now b =
     (case state b of
        Closed \<Rightarrow> Inr (True, b)
      | Open \<Rightarrow>
          (case opened_at b of
             None \<Rightarrow> Inl TypeError
           | Some t \<Rightarrow>
               if now - t \<ge> real_of_int (timeout_seconds b)
               then Inr (True, b\<lparr>state := HalfOpen\<rparr>)
               else Inr (False, b))
      | HalfOpen \<Rightarrow> Inr (True, b))"

definition get_state :: "CircuitBreakerState \<Rightarrow> breaker_status" where
  "get_state b = state b"

text \<open>
  The manager \<open>CircuitBreaker\<close> is a \<open>defaultdict(CircuitBreakerState)\<close>: a provider
  that has no entry gets a fresh breaker with the default parameters on first access.
\<close>

type_synonym CircuitBreaker = "string \<rightharpoonup> CircuitBreakerState"

definition get_breaker :: "CircuitBreaker \<Rightarrow> string \<Rightarrow> CircuitBreakerState" where
  "get_breaker cb p = (case cb p of Some b \<Rightarrow> b | None \<Rightarrow> CircuitBreakerState_init 5 60 1)"

definition cb_record_success :: "string \<Rightarrow> CircuitBreaker \<Rightarrow> CircuitBreaker" where
  "cb_record_success p cb = cb(p \<mapsto> record_success (get_breaker cb p))"

definition cb_record_failure :: "real \<Rightarrow> real \<Rightarrow> string \<Rightarrow> CircuitBreaker \<Rightarrow> CircuitBreaker" where
  "cb_record_failure t_fail t_open p cb = cb(p \<mapsto> record_failure t_fail t_open (get_breaker cb p))"

definition cb_can_attempt :: "real \<Rightarrow> string \<Rightarrow> CircuitBreaker \<Rightarrow> py_error + (bool \<times> CircuitBreaker)" where
  "cb_can_attempt now p cb =
     (case can_attempt now (get_breaker cb p) of
        Inl e \<Rightarrow> Inl e
      | Inr (ok, b) \<Rightarrow> Inr (ok, cb(p \<mapsto> b)))"

text \<open>
  The admin endpoint \<open>POST /circuit-breakers/{provider}/reset\<close> (routers/observability.py):
  a caller who is not an admin gets HTTP 403, an admin records a success for the provider.
\<close>

definition reset_circuit_breaker :: "string \<Rightarrow> string \<Rightarrow> CircuitBreaker \<Rightarrow> nat + CircuitBreaker" where
  "reset_circuit_breaker role p cb =
     (if role \<noteq> ''admin'' then Inl 403 else Inr (cb_record_success p cb))"

text \<open>Breaker operations as a sequence, for statements about reachable states.\<close>

datatype breaker_op = RecordSuccess | RecordFailure real real | CanAttempt real

fun apply_breaker_op :: "CircuitBreakerState \<Rightarrow> breaker_op \<Rightarrow> py_error + CircuitBreakerState" where
  "apply_breaker_op b RecordSuccess = Inr (record_success b)"
| "apply_breaker_op b (RecordFailure t1 t2) = Inr (record_failure t1 t2 b)"
| "apply_breaker_op b (CanAttempt now) =
     (case can_attempt now b of Inl e \<Rightarrow> Inl e | Inr (_, b') \<Rightarrow> Inr b')"

fun run_breaker_ops :: "CircuitBreakerState \<Rightarrow> breaker_op list \<Rightarrow> py_error + CircuitBreakerState" where
  "run_breaker_ops b [] = Inr b"
| "run_breaker_ops b (x # xs) =
     (case apply_breaker_op b x of Inl e \<Rightarrow> Inl e | Inr b' \<Rightarrow> run_breaker_ops b' xs)"

section \<open>Decimal rendering of integers (Python's \<open>str\<close> on \<open>int\<close>)\<close>

definition digit_char :: "nat \<Rightarrow> char" where
  "digit_char d = ''0123456789'' ! d"

function str_nat :: "nat \<Rightarrow> string" where
  "str_nat n = (if n < 10 then [digit_char n] else str_nat (n div 10) @ [digit_char (n mod 10)])"
  by pat_completeness auto
termination
  by (relation "measure (\<lambda>n. n)") auto

declare str_nat.simps [simp del]

definition str_int :: "int \<Rightarrow> string" where
  "str_int i = (if i < 0 then CHR ''-'' # str_nat (nat (- i)) else str_nat (nat i))"

section \<open>ASCII lower case (Python's \<open>str.lower\<close> on ASCII text)\<close>

definition ascii_upper :: string where
  "ascii_upper = ''ABCDEFGHIJKLMNOPQRSTUVWXYZ''"

definition ascii_lower :: string where
  "ascii_lower = ''abcdefghijklmnopqrstuvwxyz''"

definition lower_char :: "char \<Rightarrow> char" where
  "lower_char c = (case map_of (zip ascii_upper ascii_lower) c of Some l \<Rightarrow> l | None \<Rightarrow> c)"

section \<open>Model registry (services/model\_registry.py)\<close>

record ProviderConfig =
  base_url :: string
  api_key_env :: string
  timeout :: int

record ModelSpec =
  id_spec :: string
  provider :: string
  supports_tools :: bool
  supports_vision :: bool
  supports_json_schema :: bool
  max_context_tokens :: int
  max_output_tokens :: int
  reliability_tier :: int
  cost_tier :: int
  speed_tier :: int
  tags :: "string list"

text \<open>
  A primitive clause of a route predicate is a dictionary; the router looks for its keys
  in a fixed order and evaluates the first one present. The record has one optional field
  per key the router knows; a dictionary with none of them has every field \<open>None\<close>.
\<close>

record RouteClause =
  key_has_code_block :: "bool option"
  key_has_attachments :: "bool option"
  key_rag_enabled :: "bool option"
  key_tools_enabled :: "bool option"
  key_response_format_required :: "string option option"
  key_context_est_tokens_gt :: "int option"
  key_contains_regex :: "string option"

record RouteCondition =
  always :: "bool option"
  any_clauses :: "RouteClause list option"
  all_clauses :: "RouteClause list option"

record RouteSpec =
  name :: string
  when_condition :: RouteCondition
  use_model :: string
  fallback_models :: "string list"
  route_timeout_ms :: int

record ModelRegistry =
  providers :: "string \<rightharpoonup> ProviderConfig"
  models :: "ModelSpec list"
  routes :: "RouteSpec list"

text \<open>
  \<open>models_by_id\<close> is built as \<open>{model.id: model for model in models}\<close>: of two models
  with one id the later one stays.
\<close>

definition models_by_id :: "ModelRegistry \<Rightarrow> string \<rightharpoonup> ModelSpec" where
  "models_by_id reg = map_of (rev (map (\<lambda>m. (id_spec m, m)) (models reg)))"

definition get_model :: "ModelRegistry \<Rightarrow> string \<Rightarrow> ModelSpec option" where
  "get_model reg model_id = models_by_id reg model_id"

definition get_provider_config :: "ModelRegistry \<Rightarrow> string \<Rightarrow> ProviderConfig option" where
  "get_provider_config reg p = providers reg p"

definition get_routes :: "ModelRegistry \<Rightarrow> RouteSpec list" where
  "get_routes reg = routes reg"

section \<open>Provider adapters (services/provider\_adapters.py)\<close>

record ProviderError =
  message :: string
  status_code :: "int option"
  error_type :: string

definition ProviderError_init :: "string \<Rightarrow> int option \<Rightarrow> string option \<Rightarrow> ProviderError" where
  "ProviderError_init msg sc et =
     \<lparr>message = msg, status_code = sc,
      error_type = (case et of None \<Rightarrow> ''unknown'' | Some t \<Rightarrow> if t = [] then ''unknown'' else t)\<rparr>"

definition categorize_error :: "int \<Rightarrow> string" where
  "categorize_error sc =
     (if sc = 400 then ''invalid_request''
      else if sc = 401 then ''authentication''
      else if sc = 403 then ''permission''
      else if sc = 404 then ''not_found''
      else if sc = 408 then ''timeout''
      else if sc = 429 then ''rate_limit''
      else if 500 \<le> sc \<and> sc < 600 then ''server_error''
      else ''unknown'')"

text \<open>
  Python's \<open>e.status_code and e.status_code >= 500\<close>: false for \<open>None\<close> and for 0.
\<close>

definition status_at_least_500 :: "ProviderError \<Rightarrow> bool" where
  "status_at_least_500 e = (case status_code e of None \<Rightarrow> False | Some sc \<Rightarrow> sc \<noteq> 0 \<and> sc \<ge> 500)"

text \<open>The request: the executor touches the field \<open>model\<close>; \<open>payload\<close> stands for all
  the other fields (messages, sampling parameters, tools, response format, stream, metadata).\<close>

record 'a ProviderRequest =
  model :: string
  payload :: 'a

text \<open>
  An adapter object: the base URL without trailing slashes, the key and the timeout it was
  built with. The adapter classes differ in how they prepare the request and parse the
  body, which is part of what the upstream call gives below.
\<close>

record ProviderAdapter =
  adapter_base_url :: string
  adapter_api_key :: string
  adapter_timeout :: int

definition rstrip_slash :: "string \<Rightarrow> string" where
  "rstrip_slash s = rev (dropWhile (\<lambda>c. c = CHR ''/'') (rev s))"

definition ProviderAdapter_init :: "string \<Rightarrow> string \<Rightarrow> int \<Rightarrow> ProviderAdapter" where
  "ProviderAdapter_init url key t =
     \<lparr>adapter_base_url = rstrip_slash url, adapter_api_key = key, adapter_timeout = t\<rparr>"

text \<open>
  What the HTTP client (httpx, a library) and the upstream do during one call of
  \<open>complete\<close>:
  \<^item> \<open>Response sc msg body\<close>: a response with status \<open>sc\<close>. For a status other than 200,
    \<open>msg\<close> is the error message read from the body (or the text of the exception that
    reading it raised). For status 200, \<open>body\<close> is what decoding and \<open>parse_response\<close>
    give: the normalized response, or the text of the exception they raised.
  \<^item> \<open>TransportTimeout\<close>: \<open>httpx.TimeoutException\<close>.
  \<^item> \<open>TransportError txt\<close>: any other \<open>httpx.HTTPError\<close>, with \<open>str(e)\<close>.
  \<^item> \<open>RequestFailure txt\<close>: any other \<open>Exception\<close> raised before or while posting.
  \<^item> \<open>Cancellation\<close>: \<open>asyncio.CancelledError\<close>, which is not an \<open>Exception\<close>.
\<close>

datatype 'r upstream =
    Response int string "string + 'r"
  | TransportTimeout
  | TransportError string
  | RequestFailure string
  | Cancellation

text \<open>What the body of the \<open>try\<close> in \<open>complete\<close> returns or raises.\<close>

datatype complete_exception =
    HttpxTimeoutException
  | HttpxHTTPError string
  | ProviderErrorRaised ProviderError
  | ExceptionRaised string
  | CancelledErrorRaised

definition complete_body :: "'r upstream \<Rightarrow> complete_exception + 'r" where
  "complete_body u =
     (case u of
        Response sc msg body \<Rightarrow>
          if sc \<noteq> 200
          then Inl (ProviderErrorRaised (ProviderError_init msg (Some sc) (Some (categorize_error sc))))
          else (case body of Inl txt \<Rightarrow> Inl (ExceptionRaised txt) | Inr r \<Rightarrow> Inr r)
      | TransportTimeout \<Rightarrow> Inl HttpxTimeoutException
      | TransportError txt \<Rightarrow> Inl (HttpxHTTPError txt)
      | RequestFailure txt \<Rightarrow> Inl (ExceptionRaised txt)
      | Cancellation \<Rightarrow> Inl CancelledErrorRaised)"

text \<open>
  What awaiting a call of the adapter can do, seen from the executor: return a response,
  raise \<open>asyncio.TimeoutError\<close>, raise a \<open>ProviderError\<close>, raise any other exception
  (with the text \<open>str(e)\<close>), or be cancelled.
\<close>

datatype 'r outcome =
    Success 'r
  | TimeoutError
  | ProviderFailure ProviderError
  | OtherException string
  | Cancelled

text \<open>
  \<open>ProviderAdapter.complete\<close>: the handlers of its \<open>try\<close>. \<open>ProviderError\<close> is an
  \<open>Exception\<close> and neither of the two httpx exceptions, so the error raised for a status
  other than 200 is caught by \<open>except Exception\<close> and raised again with its text, status
  500 and tag \<open>unknown\<close>.
\<close>

definition adapter_complete :: "ProviderAdapter \<Rightarrow> 'r upstream \<Rightarrow> 'r outcome" where
  "adapter_complete a u =
     (case complete_body u of
        Inr r \<Rightarrow> Success r
      | Inl HttpxTimeoutException \<Rightarrow>
          ProviderFailure (ProviderError_init
            (''Request timeout after '' @ str_int (adapter_timeout a) @ ''s'') (Some 408) (Some ''timeout''))
      | Inl (HttpxHTTPError txt) \<Rightarrow> ProviderFailure (ProviderError_init txt (Some 500) (Some ''network''))
      | Inl (ProviderErrorRaised e) \<Rightarrow>
          ProviderFailure (ProviderError_init (message e) (Some 500) (Some ''unknown''))
      | Inl (ExceptionRaised txt) \<Rightarrow> ProviderFailure (ProviderError_init txt (Some 500) (Some ''unknown''))
      | Inl CancelledErrorRaised \<Rightarrow> Cancelled)"

text \<open>
  \<open>asyncio.wait_for(adapter.complete(request), timeout)\<close>: either the deadline passes
  first, or the call completes with what the upstream did.
\<close>

datatype 'r call = DeadlineExceeded | Completed "'r upstream"

definition awaited :: "ProviderAdapter \<Rightarrow> 'r call \<Rightarrow> 'r outcome" where
  "awaited a c = (case c of DeadlineExceeded \<Rightarrow> TimeoutError | Completed u \<Rightarrow> adapter_complete a u)"

section \<open>Fallback executor (services/fallback\_handler.py)\<close>

record FallbackAttempt =
  attempt_n :: nat
  fa_model_id :: string
  fa_provider :: string
  fa_status_code :: "int option"
  fa_error_type :: "string option"
  error_short :: "string option"
  latency_ms :: real

text \<open>
  What iterating \<open>adapter.stream_complete(request)\<close> can do: yield finitely many chunks
  and then end normally, raise, or be cancelled (by the task or by the consumer closing the
  stream).
\<close>

datatype stream_end =
    StreamEnd
  | StreamProviderFailure ProviderError
  | StreamOtherException string
  | StreamCancelled

text \<open>The readings of \<open>time.time()\<close> during one iteration of the candidate loop.\<close>

record clock_reads =
  t_check :: real
  t_start :: real
  t_end :: real
  t_fail :: real
  t_open :: real

text \<open>
  Everything outside the executor: the registry, the process environment
  (\<open>os.getenv\<close>), the application settings \<open>OPENAI_API_KEYS\<close> and
  \<open>OPENAI_API_BASE_URLS\<close> (\<open>None\<close> when reading them raises), the clock, and what the
  upstream does at the n-th candidate for a model id.
\<close>

record 'r world =
  registry :: ModelRegistry
  environ :: "string \<Rightarrow> string option"
  openai_api_keys :: "string list option"
  openai_api_base_urls :: "string list option"
  times :: "nat \<Rightarrow> clock_reads"
  upstream :: "nat \<Rightarrow> string \<Rightarrow> 'r call"
  stream_complete :: "nat \<Rightarrow> string \<Rightarrow> string list \<times> stream_end"

text \<open>\<open>ModelRegistry.get_api_key\<close> and \<open>ModelRegistry.get_base_url\<close>.\<close>

definition get_api_key :: "'r world \<Rightarrow> string \<Rightarrow> string option" where
  "get_api_key w p =
     (case get_provider_config (registry w) p of
        None \<Rightarrow> None
      | Some cfg \<Rightarrow>
          if map lower_char p = ''openai'' then
            (case openai_api_keys w of
               Some (k # ks) \<Rightarrow> Some k
             | _ \<Rightarrow> environ w (api_key_env cfg))
          else environ w (api_key_env cfg))"

definition get_base_url :: "'r world \<Rightarrow> string \<Rightarrow> string option" where
  "get_base_url w p =
     (case get_provider_config (registry w) p of
        None \<Rightarrow> None
      | Some cfg \<Rightarrow>
          if map lower_char p = ''openai'' then
            (case openai_api_base_urls w of
               Some (u # us) \<Rightarrow> Some u
             | _ \<Rightarrow> Some (base_url cfg))
          else Some (base_url cfg))"

record 'a handler_state =
  breakers :: CircuitBreaker
  adapters :: "string \<rightharpoonup> ProviderAdapter"
  request :: "'a ProviderRequest"
  fallback_attempts :: "FallbackAttempt list"

text \<open>
  Observable effects of a run, in order: a candidate passed the registry and the breaker
  and the request's model was set to it; an adapter was called; a chunk was handed to the
  caller of the stream.
\<close>

datatype event = Admitted nat string | Invoked nat string | Yielded string

datatype 'r exec_result =
    Returned 'r "FallbackAttempt list"
  | RaisedProviderError ProviderError
  | RaisedPyError py_error
  | RaisedCancelledError

datatype 'x step = Continue | Stop 'x

text \<open>
  \<open>_get_adapter\<close>: a cached adapter is returned; otherwise the provider must be configured
  and have a non-empty API key, or ValueError is raised with the given text; the new
  adapter is cached.
\<close>

definition get_adapter ::
  "'r world \<Rightarrow> (string \<rightharpoonup> ProviderAdapter) \<Rightarrow> ModelSpec
     \<Rightarrow> string + (ProviderAdapter \<times> (string \<rightharpoonup> ProviderAdapter))" where
  "get_adapter w ads m =
     (let p = provider m in
      case ads p of
        Some a \<Rightarrow> Inr (a, ads)
      | None \<Rightarrow>
          (case get_provider_config (registry w) p of
             None \<Rightarrow> Inl (''Provider '' @ p @ '' not configured'')
           | Some cfg \<Rightarrow>
               (case get_api_key w p of
                  None \<Rightarrow> Inl (''API key not found for provider '' @ p)
                | Some k \<Rightarrow>
                    if k = [] then Inl (''API key not found for provider '' @ p)
                    else
                      (let url = (case get_base_url w p of
                                    None \<Rightarrow> base_url cfg
                                  | Some u \<Rightarrow> if u = [] then base_url cfg else u);
                           a = ProviderAdapter_init url k (timeout cfg)
                       in Inr (a, ads(p \<mapsto> a))))))"

definition all_fallbacks_failed :: ProviderError where
  "all_fallbacks_failed =
     ProviderError_init ''All models in fallback chain failed'' (Some 500) (Some ''all_fallbacks_failed'')"

definition all_fallbacks_failed_streaming :: ProviderError where
  "all_fallbacks_failed_streaming =
     ProviderError_init ''All models in fallback chain failed for streaming'' (Some 500)
       (Some ''all_fallbacks_failed'')"

text \<open>
  The body of the \<open>try\<close> of one iteration: acquire the adapter, call it under the
  deadline. A ValueError of \<open>_get_adapter\<close> is an exception like any other raised inside
  the \<open>try\<close>.
\<close>

definition try_complete ::
  "'r world \<Rightarrow> nat \<Rightarrow> string \<Rightarrow> ModelSpec \<Rightarrow> (string \<rightharpoonup> ProviderAdapter)
     \<Rightarrow> 'r outcome \<times> (string \<rightharpoonup> ProviderAdapter) \<times> event list" where
  "try_complete w n model_id m ads =
     (case get_adapter w ads m of
        Inl msg \<Rightarrow> (OtherException msg, ads, [])
      | Inr (a, ads') \<Rightarrow> (awaited a (upstream w n model_id), ads', [Invoked n model_id]))"

text \<open>
  One iteration of the loop of \<open>execute_with_fallback\<close> for the n-th candidate. A
  cancellation is caught by none of the \<open>except\<close> clauses and leaves the function.
\<close>

definition execute_step ::
  "'r world \<Rightarrow> int \<Rightarrow> nat \<Rightarrow> string \<Rightarrow> 'a handler_state
     \<Rightarrow> 'r exec_result step \<times> 'a handler_state \<times> event list" where
  "execute_step w timeout_ms n model_id s =
     (case get_model (registry w) model_id of
        None \<Rightarrow> (Continue, s, [])
      | Some m \<Rightarrow>
         (case cb_can_attempt (t_check (times w n)) (provider m) (breakers s) of
            Inl e \<Rightarrow> (Stop (RaisedPyError e), s, [])
          | Inr (ok, cb) \<Rightarrow>
             if \<not> ok then
               (Continue,
                s\<lparr>breakers := cb,
                  fallback_attempts := fallback_attempts s @
                    [\<lparr>attempt_n = n, fa_model_id = model_id, fa_provider = provider m,
                      fa_status_code = Some 503, fa_error_type = Some ''circuit_breaker_open'',
                      error_short = Some ''Circuit breaker is open'', latency_ms = 0\<rparr>]\<rparr>,
                [])
             else
               (let clk = times w n;
                    s1 = s\<lparr>breakers := cb, request := (request s)\<lparr>model := model_id\<rparr>\<rparr>;
                    (oc, ads, evs) = try_complete w n model_id m (adapters s1);
                    s2 = s1\<lparr>adapters := ads\<rparr>;
                    latency = (t_end clk - t_start clk) * 1000;
                    failed = cb_record_failure (t_fail clk) (t_open clk) (provider m) (breakers s2)
                in case oc of
                     Success r \<Rightarrow>
                       (let s3 = s2\<lparr>breakers := cb_record_success (provider m) (breakers s2)\<rparr>;
                            s4 = (if n > 1 then
                                    s3\<lparr>fallback_attempts := fallback_attempts s3 @
                                      [\<lparr>attempt_n = n, fa_model_id = model_id, fa_provider = provider m,
                                        fa_status_code = Some 200, fa_error_type = None,
                                        error_short = None, latency_ms = latency\<rparr>]\<rparr>
                                  else s3)
                        in (Stop (Returned r (fallback_attempts s4)), s4, Admitted n model_id # evs))
                   | TimeoutError \<Rightarrow>
                       (Continue,
                        s2\<lparr>breakers := failed,
                           fallback_attempts := fallback_attempts s2 @
                             [\<lparr>attempt_n = n, fa_model_id = model_id, fa_provider = provider m,
                               fa_status_code = Some 408, fa_error_type = Some ''timeout'',
                               error_short = Some (''Request timeout after '' @ str_int timeout_ms @ ''ms''),
                               latency_ms = latency\<rparr>]\<rparr>,
                        Admitted n model_id # evs)
                   | ProviderFailure e \<Rightarrow>
                       (Continue,
                        s2\<lparr>breakers :=
                             (if status_at_least_500 e then failed
                              else if error_type e = ''timeout'' then failed
                              else breakers s2),
                           fallback_attempts := fallback_attempts s2 @
                             [\<lparr>attempt_n = n, fa_model_id = model_id, fa_provider = provider m,
                               fa_status_code = status_code e, fa_error_type = Some (error_type e),
                               error_short = Some (take 200 (message e)), latency_ms = latency\<rparr>]\<rparr>,
                        Admitted n model_id # evs)
                   | OtherException msg \<Rightarrow>
                       (Continue,
                        s2\<lparr>breakers := failed,
                           fallback_attempts := fallback_attempts s2 @
                             [\<lparr>attempt_n = n, fa_model_id = model_id, fa_provider = provider m,
                               fa_status_code = Some 500, fa_error_type = Some ''unknown'',
                               error_short = Some (take 200 msg), latency_ms = latency\<rparr>]\<rparr>,
                        Admitted n model_id # evs)
                   | Cancelled \<Rightarrow> (Stop RaisedCancelledError, s2, Admitted n model_id # evs))))"

fun execute_loop ::
  "'r world \<Rightarrow> int \<Rightarrow> nat \<Rightarrow> string list \<Rightarrow> 'a handler_state
     \<Rightarrow> 'r exec_result \<times> 'a handler_state \<times> event list" where
  "execute_loop w timeout_ms n [] s = (RaisedProviderError all_fallbacks_failed, s, [])"
| "execute_loop w timeout_ms n (model_id # rest) s =
     (case execute_step w timeout_ms n model_id s of
        (Stop r, s', evs) \<Rightarrow> (r, s', evs)
      | (Continue, s', evs) \<Rightarrow>
          (case execute_loop w timeout_ms (Suc n) rest s' of
             (r, s'', evs') \<Rightarrow> (r, s'', evs @ evs')))"

text \<open>
  \<open>execute_with_fallback\<close>: the handler's breakers and adapter cache and the caller's
  request go in; the attempt list starts empty. The result comes with the final state
  (which holds the attempt list the loop accumulated, also when it raises) and the events.
\<close>

definition execute_with_fallback ::
  "'r world \<Rightarrow> CircuitBreaker \<Rightarrow> (string \<rightharpoonup> ProviderAdapter) \<Rightarrow> 'a ProviderRequest
     \<Rightarrow> string \<Rightarrow> string list \<Rightarrow> int
     \<Rightarrow> 'r exec_result \<times> 'a handler_state \<times> event list" where
  "execute_with_fallback w cb ads req primary_model_id fallback_model_ids timeout_ms =
     execute_loop w timeout_ms 1 (primary_model_id # fallback_model_ids)
       \<lparr>breakers = cb, adapters = ads, request = req, fallback_attempts = []\<rparr>"

text \<open>
  One iteration of the loop of \<open>stream_with_fallback\<close>. The chunks of the adapter's
  stream are handed to the caller one by one as they arrive; whatever ends the stream is
  handled after them.
\<close>

datatype stream_result =
    StreamFinished
  | StreamRaised ProviderError
  | StreamPyError py_error
  | StreamCancellation

definition try_stream ::
  "'r world \<Rightarrow> nat \<Rightarrow> string \<Rightarrow> ModelSpec \<Rightarrow> (string \<rightharpoonup> ProviderAdapter)
     \<Rightarrow> stream_end \<times> (string \<rightharpoonup> ProviderAdapter) \<times> event list" where
  "try_stream w n model_id m ads =
     (case get_adapter w ads m of
        Inl msg \<Rightarrow> (StreamOtherException msg, ads, [])
      | Inr (a, ads') \<Rightarrow>
          (case stream_complete w n model_id of
             (chunks, fin) \<Rightarrow> (fin, ads', Invoked n model_id # map Yielded chunks)))"

definition stream_step ::
  "'r world \<Rightarrow> nat \<Rightarrow> string \<Rightarrow> 'a handler_state
     \<Rightarrow> stream_result step \<times> 'a handler_state \<times> event list" where
  "stream_step w n model_id s =
     (case get_model (registry w) model_id of
        None \<Rightarrow> (Continue, s, [])
      | Some m \<Rightarrow>
         (case cb_can_attempt (t_check (times w n)) (provider m) (breakers s) of
            Inl e \<Rightarrow> (Stop (StreamPyError e), s, [])
          | Inr (ok, cb) \<Rightarrow>
             if \<not> ok then (Continue, s\<lparr>breakers := cb\<rparr>, [])
             else
               (let clk = times w n;
                    s1 = s\<lparr>breakers := cb, request := (request s)\<lparr>model := model_id\<rparr>\<rparr>;
                    (fin, ads, evs) = try_stream w n model_id m (adapters s1);
                    s2 = s1\<lparr>adapters := ads\<rparr>;
                    failed = cb_record_failure (t_fail clk) (t_open clk) (provider m) (breakers s2)
                in case fin of
                     StreamEnd \<Rightarrow>
                       (Stop StreamFinished,
                        s2\<lparr>breakers := cb_record_success (provider m) (breakers s2)\<rparr>,
                        Admitted n model_id # evs)
                   | StreamProviderFailure e \<Rightarrow>
                       (Continue,
                        s2\<lparr>breakers := (if status_at_least_500 e then failed else breakers s2)\<rparr>,
                        Admitted n model_id # evs)
                   | StreamOtherException msg \<Rightarrow>
                       (Continue, s2\<lparr>breakers := failed\<rparr>, Admitted n model_id # evs)
                   | StreamCancelled \<Rightarrow> (Stop StreamCancellation, s2, Admitted n model_id # evs))))"

fun stream_loop ::
  "'r world \<Rightarrow> nat \<Rightarrow> string list \<Rightarrow> 'a handler_state
     \<Rightarrow> stream_result \<times> 'a handler_state \<times> event list" where
  "stream_loop w n [] s = (StreamRaised all_fallbacks_failed_streaming, s, [])"
| "stream_loop w n (model_id # rest) s =
     (case stream_step w n model_id s of
        (Stop r, s', evs) \<Rightarrow> (r, s', evs)
      | (Continue, s', evs) \<Rightarrow>
          (case stream_loop w (Suc n) rest s' of
             (r, s'', evs') \<Rightarrow> (r, s'', evs @ evs')))"

definition stream_with_fallback ::
  "'r world \<Rightarrow> CircuitBreaker \<Rightarrow> (string \<rightharpoonup> ProviderAdapter) \<Rightarrow> 'a ProviderRequest
     \<Rightarrow> string \<Rightarrow> string list
     \<Rightarrow> stream_result \<times> 'a handler_state \<times> event list" where
  "stream_with_fallback w cb ads req primary_model_id fallback_model_ids =
     stream_loop w 1 (primary_model_id # fallback_model_ids)
       \<lparr>breakers = cb, adapters = ads, request = req, fallback_attempts = []\<rparr>"

text \<open>Readings of an event list.\<close>

fun is_yield :: "event \<Rightarrow> bool" where
  "is_yield (Yielded c) = True"
| "is_yield _ = False"

fun is_invoke :: "event \<Rightarrow> bool" where
  "is_invoke (Invoked n m) = True"
| "is_invoke _ = False"

fun last_invoked :: "event list \<Rightarrow> string option" where
  "last_invoked [] = None"
| "last_invoked (Invoked n m # evs) =
     (case last_invoked evs of None \<Rightarrow> Some m | Some m' \<Rightarrow> Some m')"
| "last_invoked (e # evs) = last_invoked evs"

text \<open>No adapter is called after a chunk has been handed to the caller.\<close>

fun no_invoke_after_yield :: "event list \<Rightarrow> bool" where
  "no_invoke_after_yield [] = True"
| "no_invoke_after_yield (Yielded c # evs) = (\<not> list_ex is_invoke evs \<and> no_invoke_after_yield evs)"
| "no_invoke_after_yield (e # evs) = no_invoke_after_yield evs"

section \<open>What happens to one candidate, read off the registry, the breaker and the upstream\<close>

text \<open>
  The fate of a candidate, stated without the executor:
  \<^item> \<open>Skipped\<close>: the registry does not know the model id;
  \<^item> \<open>Refused\<close>: the breaker of the model's provider does not admit an attempt;
  \<^item> \<open>Broken e\<close>: asking the breaker raises (it is open and has no opening time);
  \<^item> \<open>Unavailable\<close>: there is no adapter for the provider and none can be built;
  \<^item> \<open>Answered r\<close>: the upstream answers with the response \<open>r\<close>;
  \<^item> \<open>NoAnswer\<close>: the adapter is called and gives no response (deadline, error);
  \<^item> \<open>Aborted\<close>: the call is cancelled.
\<close>

datatype 'x verdict = Skipped | Refused | Broken py_error | Unavailable | Answered 'x | NoAnswer | Aborted

text \<open>A unary call succeeds when, before the deadline, the upstream answers with status
  200 and a body that the adapter can parse. A stream succeeds when it ends normally.\<close>

fun call_verdict :: "'r call \<Rightarrow> 'r verdict" where
  "call_verdict (Completed (Response sc msg (Inr r))) = (if sc = 200 then Answered r else NoAnswer)"
| "call_verdict (Completed Cancellation) = Aborted"
| "call_verdict c = NoAnswer"

fun stream_verdict :: "string list \<times> stream_end \<Rightarrow> unit verdict" where
  "stream_verdict (chunks, StreamEnd) = Answered ()"
| "stream_verdict (chunks, StreamCancelled) = Aborted"
| "stream_verdict (chunks, fin) = NoAnswer"

definition candidate_verdict ::
  "'r world \<Rightarrow> nat \<Rightarrow> string \<Rightarrow> CircuitBreaker \<Rightarrow> (string \<rightharpoonup> ProviderAdapter)
     \<Rightarrow> 'x verdict \<Rightarrow> 'x verdict" where
  "candidate_verdict w n model_id cb ads called =
     (case get_model (registry w) model_id of
        None \<Rightarrow> Skipped
      | Some m \<Rightarrow>
          (case can_attempt (t_check (times w n)) (get_breaker cb (provider m)) of
             Inl e \<Rightarrow> Broken e
           | Inr (ok, b) \<Rightarrow>
               if \<not> ok then Refused
               else (case get_adapter w ads m of
                       Inl msg \<Rightarrow> Unavailable
                     | Inr x \<Rightarrow> called)))"

text \<open>The loop goes on to the next candidate after these verdicts, and stops at the others.\<close>

fun continues :: "'x verdict \<Rightarrow> bool" where
  "continues Skipped = True"
| "continues Refused = True"
| "continues Unavailable = True"
| "continues NoAnswer = True"
| "continues v = False"

text \<open>The candidate was found in the registry and admitted by its provider's breaker.\<close>

fun admitted :: "'x verdict \<Rightarrow> bool" where
  "admitted Skipped = False"
| "admitted Refused = False"
| "admitted (Broken e) = False"
| "admitted v = True"

text \<open>
  The candidates of a chain that are reached, each with its verdict: the chain is gone
  through in order, every candidate meets the breakers and adapters its predecessors left,
  and the first verdict that does not continue ends the list.
\<close>

fun execute_trace ::
  "'r world \<Rightarrow> int \<Rightarrow> nat \<Rightarrow> string list \<Rightarrow> 'a handler_state \<Rightarrow> (string \<times> 'r verdict) list" where
  "execute_trace w tmo n [] s = []"
| "execute_trace w tmo n (model_id # rest) s =
     (let v = candidate_verdict w n model_id (breakers s) (adapters s) (call_verdict (upstream w n model_id))
      in (model_id, v) #
         (if continues v then execute_trace w tmo (Suc n) rest (fst (snd (execute_step w tmo n model_id s)))
          else []))"

fun stream_trace ::
  "'r world \<Rightarrow> nat \<Rightarrow> string list \<Rightarrow> 'a handler_state \<Rightarrow> (string \<times> unit verdict) list" where
  "stream_trace w n [] s = []"
| "stream_trace w n (model_id # rest) s =
     (let v = candidate_verdict w n model_id (breakers s) (adapters s)
                (stream_verdict (stream_complete w n model_id))
      in (model_id, v) #
         (if continues v then stream_trace w (Suc n) rest (fst (snd (stream_step w n model_id s)))
          else []))"

text \<open>The verdict of the last candidate reached, and the id of the last admitted one.\<close>

fun final_verdict :: "(string \<times> 'x verdict) list \<Rightarrow> 'x verdict" where
  "final_verdict [] = Skipped"
| "final_verdict [(model_id, v)] = v"
| "final_verdict (x # y # T) = final_verdict (y # T)"

fun final_model :: "string \<Rightarrow> (string \<times> 'x verdict) list \<Rightarrow> string" where
  "final_model current [] = current"
| "final_model current ((model_id, v) # T) = final_model (if admitted v then model_id else current) T"

section \<open>Router (services/model\_router.py)\<close>

text \<open>The routing context; its field \<open>messages\<close> is not read by the router and is left out.\<close>

record RoutingContext =
  last_user_message :: string
  has_code_block :: bool
  has_attachments :: bool
  rag_enabled :: bool
  estimated_context_tokens :: int
  tools_enabled :: bool
  response_format_required :: "string option"

record RoutingDecision =
  primary_model_id :: string
  fallback_model_ids :: "string list"
  route_name :: string
  route_reason :: string
  timeout_ms :: int

definition validate_capabilities :: "ModelSpec \<Rightarrow> RoutingContext \<Rightarrow> bool" where
  "validate_capabilities m ctx =
     (if tools_enabled ctx \<and> \<not> supports_tools m then False
      else if response_format_required ctx = Some ''json_schema'' \<and> \<not> supports_json_schema m then False
      else if estimated_context_tokens ctx > max_context_tokens m then False
      else True)"

text \<open>
  \<open>re_search pattern text\<close> stands for \<open>re.search(pattern, text, re.IGNORECASE)\<close> of
  Python's library: \<open>Some\<close> whether a match was found, \<open>None\<close> when the pattern does
  not compile (\<open>re.error\<close>).
\<close>

definition evaluate_condition ::
  "(string \<Rightarrow> string \<Rightarrow> bool option) \<Rightarrow> RouteClause \<Rightarrow> RoutingContext \<Rightarrow> bool" where
  "evaluate_condition re_search c ctx =
     (case key_has_code_block c of Some v \<Rightarrow> has_code_block ctx = v | None \<Rightarrow>
      (case key_has_attachments c of Some v \<Rightarrow> has_attachments ctx = v | None \<Rightarrow>
       (case key_rag_enabled c of Some v \<Rightarrow> rag_enabled ctx = v | None \<Rightarrow>
        (case key_tools_enabled c of Some v \<Rightarrow> tools_enabled ctx = v | None \<Rightarrow>
         (case key_response_format_required c of Some v \<Rightarrow> response_format_required ctx = v | None \<Rightarrow>
          (case key_context_est_tokens_gt c of Some v \<Rightarrow> estimated_context_tokens ctx > v | None \<Rightarrow>
           (case key_contains_regex c of
              Some pat \<Rightarrow> (case re_search pat (last_user_message ctx) of Some found \<Rightarrow> found | None \<Rightarrow> False)
            | None \<Rightarrow> False)))))))"

definition matches_route ::
  "(string \<Rightarrow> string \<Rightarrow> bool option) \<Rightarrow> RouteSpec \<Rightarrow> RoutingContext \<Rightarrow> bool" where
  "matches_route re_search r ctx =
     (let condition = when_condition r in
      if always condition = Some True then True
      else (case any_clauses condition of
              Some (c # cs) \<Rightarrow> list_ex (\<lambda>cond. evaluate_condition re_search cond ctx) (c # cs)
            | _ \<Rightarrow>
              (case all_clauses condition of
                 Some (c # cs) \<Rightarrow> list_all (\<lambda>cond. evaluate_condition re_search cond ctx) (c # cs)
               | _ \<Rightarrow> False)))"

definition resolve_fallback_chain :: "ModelRegistry \<Rightarrow> string list \<Rightarrow> RoutingContext \<Rightarrow> string list" where
  "resolve_fallback_chain reg ids ctx =
     filter (\<lambda>model_id. case get_model reg model_id of
                          None \<Rightarrow> False
                        | Some m \<Rightarrow> validate_capabilities m ctx) ids"

text \<open>Python's \<open>list.sort(key=...)\<close> is stable, as \<open>sort_key\<close> is; tuples compare lexicographically.\<close>

definition get_fallback_models :: "ModelRegistry \<Rightarrow> ModelSpec \<Rightarrow> RoutingContext \<Rightarrow> string list" where
  "get_fallback_models reg primary_model ctx =
     (let candidates = filter (\<lambda>m. id_spec m \<noteq> id_spec primary_model \<and> validate_capabilities m ctx)
                         (models reg);
          sorted_candidates = sort_key (\<lambda>m. (- reliability_tier m, - speed_tier m, cost_tier m)) candidates
      in map id_spec (take 3 sorted_candidates))"

definition get_default_route :: "ModelRegistry \<Rightarrow> RoutingContext \<Rightarrow> py_error + RoutingDecision" where
  "get_default_route reg ctx =
     (let candidates = filter (\<lambda>m. validate_capabilities m ctx) (models reg) in
      if candidates = [] then
        (case models reg of
           [] \<Rightarrow> Inl IndexError
         | first_model # _ \<Rightarrow>
             Inr \<lparr>primary_model_id = id_spec first_model, fallback_model_ids = [],
                  route_name = ''fallback_no_match'',
                  route_reason = ''No models meet all requirements'', timeout_ms = 30000\<rparr>)
      else
        (let sorted_candidates = sort_key (\<lambda>m. (- speed_tier m, cost_tier m, - reliability_tier m)) candidates
         in (case sorted_candidates of
               [] \<Rightarrow> Inl IndexError
             | primary # others \<Rightarrow>
                 Inr \<lparr>primary_model_id = id_spec primary,
                      fallback_model_ids = map id_spec (take 3 others),
                      route_name = ''default'',
                      route_reason = ''Default routing: fast and cost-effective'',
                      timeout_ms = 30000\<rparr>)))"

fun join :: "string \<Rightarrow> string list \<Rightarrow> string" where
  "join sep [] = []"
| "join sep [x] = x"
| "join sep (x # y # ys) = x @ sep @ join sep (y # ys)"

definition build_route_reason :: "RouteSpec \<Rightarrow> RoutingContext \<Rightarrow> string" where
  "build_route_reason r ctx =
     (let reasons =
            (if has_code_block ctx then [''code blocks detected''] else []) @
            (if rag_enabled ctx then [''RAG enabled''] else []) @
            (if tools_enabled ctx then [''tools required''] else []) @
            (case response_format_required ctx of
               None \<Rightarrow> []
             | Some f \<Rightarrow> if f = [] then [] else [f @ '' format required'']) @
            (if estimated_context_tokens ctx > 12000
             then [''long context ('' @ str_int (estimated_context_tokens ctx) @ '' tokens)'']
             else [])
      in if reasons \<noteq> [] then ''Route '' @ [CHR 0x27] @ name r @ [CHR 0x27] @ '': '' @ join '', '' reasons
         else ''Route '' @ [CHR 0x27] @ name r @ [CHR 0x27] @ '' matched'')"

text \<open>The loop of \<open>route\<close> over the configured routes: the first route that matches and
  whose primary model exists and is feasible decides.\<close>

fun route_rules ::
  "(string \<Rightarrow> string \<Rightarrow> bool option) \<Rightarrow> ModelRegistry \<Rightarrow> RoutingContext \<Rightarrow> RouteSpec list
     \<Rightarrow> RoutingDecision option" where
  "route_rules re_search reg ctx [] = None"
| "route_rules re_search reg ctx (r # rs) =
     (if matches_route re_search r ctx then
        (case get_model reg (use_model r) of
           None \<Rightarrow> route_rules re_search reg ctx rs
         | Some primary_model \<Rightarrow>
             if validate_capabilities primary_model ctx then
               Some \<lparr>primary_model_id = use_model r,
                     fallback_model_ids = resolve_fallback_chain reg (fallback_models r) ctx,
                     route_name = name r,
                     route_reason = build_route_reason r ctx,
                     timeout_ms = route_timeout_ms r\<rparr>
             else route_rules re_search reg ctx rs)
      else route_rules re_search reg ctx rs)"

definition route_override :: "ModelRegistry \<Rightarrow> RoutingContext \<Rightarrow> string option \<Rightarrow> RoutingDecision option" where
  "route_override reg ctx user_model_override =
     (case user_model_override of
        None \<Rightarrow> None
      | Some ov \<Rightarrow>
          if ov = [] then None
          else (case get_model reg ov of
                  None \<Rightarrow> None
                | Some m \<Rightarrow>
                    if validate_capabilities m ctx then
                      Some \<lparr>primary_model_id = ov,
                            fallback_model_ids = get_fallback_models reg m ctx,
                            route_name = ''user_override'',
                            route_reason = ''User selected '' @ ov,
                            timeout_ms = 60000\<rparr>
                    else None))"

definition route ::
  "(string \<Rightarrow> string \<Rightarrow> bool option) \<Rightarrow> ModelRegistry \<Rightarrow> RoutingContext \<Rightarrow> string option
     \<Rightarrow> py_error + RoutingDecision" where
  "route re_search reg ctx user_model_override =
     (case route_override reg ctx user_model_override of
        Some d \<Rightarrow> Inr d
      | None \<Rightarrow>
          (case route_rules re_search reg ctx (get_routes reg) of
             Some d \<Rightarrow> Inr d
           | None \<Rightarrow> get_default_route reg ctx))"

text \<open>A model id passes capability validation when the registry resolves it to a model
  that \<open>validate_capabilities\<close> accepts.\<close>

definition passes_validation :: "ModelRegistry \<Rightarrow> RoutingContext \<Rightarrow> string \<Rightarrow> bool" where
  "passes_validation reg ctx model_id =
     (case get_model reg model_id of None \<Rightarrow> False | Some m \<Rightarrow> validate_capabilities m ctx)"

definition decision_sound :: "ModelRegistry \<Rightarrow> RoutingContext \<Rightarrow> RoutingDecision \<Rightarrow> bool" where
  "decision_sound reg ctx d =
     list_all (passes_validation reg ctx) (primary_model_id d # fallback_model_ids d)"

section \<open>Reranker (services/rag\_reranker.py)\<close>

text \<open>Scores are Python floats; they are real numbers here.\<close>

record RAGChunk =
  doc_id :: string
  doc_title :: "string option"
  doc_path :: "string option"
  chunk_id :: string
  content :: string
  vector_score :: real

record RankedChunk =
  chunk :: RAGChunk
  ranked_vector_score :: real
  rerank_score :: real
  final_score :: real
  preview :: string

record RerankerResult =
  ranked_chunks :: "RankedChunk list"
  reranker_type :: string
  rerank_latency_ms :: real

record LexicalReranker =
  param_k1 :: real
  param_b :: real
  vector_weight :: real
  lexical_weight :: real

definition LexicalReranker_default :: LexicalReranker where
  "LexicalReranker_default =
     \<lparr>param_k1 = 3 / 2, param_b = 3 / 4, vector_weight = 3 / 10, lexical_weight = 7 / 10\<rparr>"

text \<open>
  \<open>_tokenize\<close> lowercases the text and takes \<open>re.findall(r'\b\w+\b', ...)\<close>: the maximal
  runs of word characters. The text is ASCII here: word characters are letters, digits and
  the underscore.
\<close>

definition is_word_char :: "char \<Rightarrow> bool" where
  "is_word_char c = (c \<in> set (ascii_lower @ ascii_upper @ ''0123456789_''))"

fun word_runs :: "string \<Rightarrow> string \<Rightarrow> string list" where
  "word_runs cur [] = (if cur = [] then [] else [cur])"
| "word_runs cur (c # cs) =
     (if is_word_char c then word_runs (cur @ [c]) cs
      else (if cur = [] then [] else [cur]) @ word_runs [] cs)"

definition tokenize :: "string \<Rightarrow> string list" where
  "tokenize text = word_runs [] (map lower_char text)"

text \<open>The keys of \<open>Counter(tokens)\<close>, in the order of their first occurrence.\<close>

fun counter_keys :: "'a list \<Rightarrow> 'a list" where
  "counter_keys [] = []"
| "counter_keys (x # xs) = x # filter (\<lambda>y. y \<noteq> x) (counter_keys xs)"

definition idf_of_term :: "RAGChunk list \<Rightarrow> string \<Rightarrow> real" where
  "idf_of_term chunks term =
     (let N = length chunks;
          doc_count = length (filter (\<lambda>c. term \<in> set (tokenize (content c))) chunks)
      in if doc_count > 0
         then ln ((real N - real doc_count + 1 / 2) / (real doc_count + 1 / 2))
         else 0)"

text \<open>\<open>_calculate_idf\<close> returns a dictionary, here the list of its items in insertion order.\<close>

definition calculate_idf :: "string list \<Rightarrow> RAGChunk list \<Rightarrow> (string \<times> real) list" where
  "calculate_idf query_terms chunks =
     map (\<lambda>term. (term, idf_of_term chunks term)) (counter_keys query_terms)"

definition idf_get :: "(string \<times> real) list \<Rightarrow> string \<Rightarrow> real" where
  "idf_get idf_scores term = (case map_of idf_scores term of Some v \<Rightarrow> v | None \<Rightarrow> 0)"

definition length_norm :: "LexicalReranker \<Rightarrow> nat \<Rightarrow> real \<Rightarrow> real" where
  "length_norm P doc_length avg_doc_length =
     (if avg_doc_length > 0
      then 1 - param_b P + param_b P * (real doc_length / avg_doc_length)
      else 1)"

text \<open>The loop of \<open>_bm25_score\<close> over the query terms; a zero denominator raises.\<close>

fun bm25_terms ::
  "LexicalReranker \<Rightarrow> string list \<Rightarrow> real \<Rightarrow> (string \<times> real) list \<Rightarrow> string list \<Rightarrow> real
     \<Rightarrow> py_error + real" where
  "bm25_terms P doc_tokens nrm idf_scores [] score = Inr score"
| "bm25_terms P doc_tokens nrm idf_scores (term # rest) score =
     (if term \<notin> set doc_tokens then bm25_terms P doc_tokens nrm idf_scores rest score
      else
        (let tf = real (count_list doc_tokens term);
             denominator = tf + param_k1 P * nrm
         in if denominator = 0 then Inl ZeroDivisionError
            else bm25_terms P doc_tokens nrm idf_scores rest
                   (score + idf_get idf_scores term * (tf * (param_k1 P + 1)) / denominator)))"

definition bm25_score ::
  "LexicalReranker \<Rightarrow> string list \<Rightarrow> string \<Rightarrow> nat \<Rightarrow> real \<Rightarrow> (string \<times> real) list
     \<Rightarrow> py_error + real" where
  "bm25_score P query_terms document doc_length avg_doc_length idf_scores =
     (case bm25_terms P (tokenize document) (length_norm P doc_length avg_doc_length)
             idf_scores query_terms 0 of
        Inl e \<Rightarrow> Inl e
      | Inr score \<Rightarrow>
          (let max_score = sum_list (map snd idf_scores) * (param_k1 P + 1)
           in if max_score > 0 then Inr (min (score / max_score) 1) else Inr score))"

definition make_preview :: "string \<Rightarrow> string" where
  "make_preview text = take 400 text @ (if length text > 400 then ''...'' else [])"

fun score_chunks ::
  "LexicalReranker \<Rightarrow> string list \<Rightarrow> real \<Rightarrow> (string \<times> real) list \<Rightarrow> (RAGChunk \<times> nat) list
     \<Rightarrow> py_error + RankedChunk list" where
  "score_chunks P query_terms avg idf_scores [] = Inr []"
| "score_chunks P query_terms avg idf_scores ((c, doc_length) # rest) =
     (case bm25_score P query_terms (content c) doc_length avg idf_scores of
        Inl e \<Rightarrow> Inl e
      | Inr lexical_score \<Rightarrow>
          (case score_chunks P query_terms avg idf_scores rest of
             Inl e \<Rightarrow> Inl e
           | Inr ranked \<Rightarrow>
               Inr (\<lparr>chunk = c, ranked_vector_score = vector_score c, rerank_score = lexical_score,
                     final_score = vector_weight P * vector_score c + lexical_weight P * lexical_score,
                     preview = make_preview (content c)\<rparr> # ranked)))"

text \<open>Python's \<open>xs[:k]\<close>; a negative \<open>k\<close> counts from the end.\<close>

definition slice_to :: "int \<Rightarrow> 'a list \<Rightarrow> 'a list" where
  "slice_to k xs = (if k \<ge> 0 then take (nat k) xs else take (nat (int (length xs) + k)) xs)"

text \<open>
  \<open>rerank\<close>; \<open>start_time\<close> and \<open>end_time\<close> are its two readings of the clock.
  \<open>ranked.sort(key=..., reverse=True)\<close> is stable: chunks of equal score keep their order.
\<close>

definition rerank ::
  "LexicalReranker \<Rightarrow> real \<Rightarrow> real \<Rightarrow> string \<Rightarrow> RAGChunk list \<Rightarrow> int option
     \<Rightarrow> py_error + RerankerResult" where
  "rerank P start_time end_time query chunks top_k =
     (if chunks = [] then
        Inr \<lparr>ranked_chunks = [], reranker_type = ''lexical_bm25'', rerank_latency_ms = 0\<rparr>
      else
        (let query_terms = counter_keys (tokenize query);
             doc_lengths = map (\<lambda>c. length (tokenize (content c))) chunks;
             avg_doc_length = real (sum_list doc_lengths) / real (length doc_lengths);
             idf_scores = calculate_idf query_terms chunks
         in case score_chunks P query_terms avg_doc_length idf_scores (zip chunks doc_lengths) of
              Inl e \<Rightarrow> Inl e
            | Inr ranked \<Rightarrow>
                (let sorted_ranked = sort_key (\<lambda>x. - final_score x) ranked;
                     selected = (case top_k of
                                   None \<Rightarrow> sorted_ranked
                                 | Some k \<Rightarrow> if k \<noteq> 0 then slice_to k sorted_ranked else sorted_ranked)
                 in Inr \<lparr>ranked_chunks = selected, reranker_type = ''lexical_bm25'',
                         rerank_latency_ms = (end_time - start_time) * 1000\<rparr>)))"

section \<open>Prompt injection (services/rag\_reranker.py)\<close>

text \<open>
  Python passes lists and dictionaries by reference, so the caller's objects live in a
  store: an address is an index into a list of objects. A message is a dictionary from
  keys to text, kept as the list of its items in insertion order; a message list is a list of
  addresses of messages.
\<close>

type_synonym message = "(string \<times> string) list"

datatype obj = DictObj message | ListObj "nat list"

type_synonym store = "obj list"

datatype lookup_error = BadAddress

definition dict_get :: "message \<Rightarrow> string \<Rightarrow> string option" where
  "dict_get d k = map_of d k"

fun dict_set :: "string \<Rightarrow> string \<Rightarrow> message \<Rightarrow> message" where
  "dict_set k v [] = [(k, v)]"
| "dict_set k v ((k', v') # d) = (if k = k' then (k, v) # d else (k', v') # dict_set k v d)"

definition newline :: string where
  "newline = [CHR 0x0A]"

fun context_parts :: "nat \<Rightarrow> RankedChunk list \<Rightarrow> string list" where
  "context_parts i [] = []"
| "context_parts i (r # rs) =
     (let c = chunk r;
          title = (case doc_title c of None \<Rightarrow> doc_id c | Some t \<Rightarrow> if t = [] then doc_id c else t)
      in (''[Source '' @ str_nat i @ '': '' @ title @ '']'' @ newline @ content c @ newline)
         # context_parts (Suc i) rs)"

definition injection_content :: "RankedChunk list \<Rightarrow> string" where
  "injection_content ranked =
     ''You have access to the following relevant information from the knowledge base. '' @
     ''Use this context to provide accurate and grounded responses:'' @ newline @ newline @
     join newline (context_parts 1 ranked)"

text \<open>The loop of the \<open>user\<close> strategy: the first message whose role is \<open>user\<close> gets its
  content replaced, in the store.\<close>

fun inject_user :: "store \<Rightarrow> string \<Rightarrow> nat list \<Rightarrow> lookup_error + store" where
  "inject_user h injected [] = Inr h"
| "inject_user h injected (a # as) =
     (if a < length h then
        (case h ! a of
           DictObj msg \<Rightarrow>
             if dict_get msg ''role'' = Some ''user'' then
               (let original_content = (case dict_get msg ''content'' of None \<Rightarrow> [] | Some t \<Rightarrow> t)
                in Inr (h[a := DictObj (dict_set ''content''
                          (injected @ newline @ newline @ ''---'' @ newline @ newline @
                           ''User question: '' @ original_content) msg)]))
             else inject_user h injected as
         | ListObj xs \<Rightarrow> Inl BadAddress)
      else Inl BadAddress)"

text \<open>
  \<open>inject_chunks_into_prompt\<close> takes the store and the address of the caller's message
  list and returns the store and the address of the list it returns.
\<close>

definition inject_chunks_into_prompt ::
  "store \<Rightarrow> nat \<Rightarrow> RankedChunk list \<Rightarrow> string \<Rightarrow> lookup_error + (store \<times> nat)" where
  "inject_chunks_into_prompt h messages ranked injection_strategy =
     (if ranked = [] then Inr (h, messages)
      else if messages < length h then
        (case h ! messages of
           DictObj d \<Rightarrow> Inl BadAddress
         | ListObj refs \<Rightarrow>
             (let injected = injection_content ranked;
                  modified_messages = length h;
                  h1 = h @ [ListObj refs]
              in if injection_strategy = ''system'' then
                   (let system_message = length h1;
                        h2 = h1 @ [DictObj [(''role'', ''system''), (''content'', injected)]]
                    in Inr (h2[modified_messages := ListObj (system_message # refs)], modified_messages))
                 else if injection_strategy = ''user'' then
                   (case inject_user h1 injected refs of
                      Inl e \<Rightarrow> Inl e
                    | Inr h2 \<Rightarrow> Inr (h2, modified_messages))
                 else Inr (h1, modified_messages)))
      else Inl BadAddress)"

text \<open>The messages a list address denotes in a store, read through the references.\<close>

definition read_messages :: "store \<Rightarrow> nat \<Rightarrow> message list option" where
  "read_messages h a =
     (if a < length h then
        (case h ! a of
           ListObj refs \<Rightarrow>
             if list_all (\<lambda>r. r < length h \<and> (case h ! r of DictObj d \<Rightarrow> True | ListObj xs \<Rightarrow> False)) refs
             then Some (map (\<lambda>r. case h ! r of DictObj d \<Rightarrow> d | ListObj xs \<Rightarrow> []) refs)
             else None
         | DictObj d \<Rightarrow> None)
      else None)"

section \<open>Concrete inputs\<close>

text \<open>The registry of the test suite: two models of two providers, an adapter cached for
  each provider, a key in the environment, and a clock that shows \<open>n\<close> seconds throughout
  the n-th iteration.\<close>

definition example_model :: "string \<Rightarrow> string \<Rightarrow> ModelSpec" where
  "example_model i p =
     \<lparr>id_spec = i, provider = p, supports_tools = True, supports_vision = False,
      supports_json_schema = False, max_context_tokens = 4096, max_output_tokens = 2048,
      reliability_tier = 2, cost_tier = 2, speed_tier = 2, tags = [''general'']\<rparr>"

definition example_config :: "string \<Rightarrow> ProviderConfig" where
  "example_config p = \<lparr>base_url = ''https://api.'' @ p @ ''.com/v1'', api_key_env = ''KEY'', timeout = 60\<rparr>"

definition example_registry :: ModelRegistry where
  "example_registry =
     \<lparr>providers = [''provider1'' \<mapsto> example_config ''provider1'',
                   ''provider2'' \<mapsto> example_config ''provider2''],
      models = [example_model ''model1'' ''provider1'', example_model ''model2'' ''provider2''],
      routes = []\<rparr>"

definition example_adapters :: "string \<rightharpoonup> ProviderAdapter" where
  "example_adapters =
     [''provider1'' \<mapsto> ProviderAdapter_init ''https://api.provider1.com/v1'' ''test-api-key'' 60,
      ''provider2'' \<mapsto> ProviderAdapter_init ''https://api.provider2.com/v1'' ''test-api-key'' 60]"

definition example_clock :: "nat \<Rightarrow> clock_reads" where
  "example_clock n = \<lparr>t_check = real n, t_start = real n, t_end = real n, t_fail = real n, t_open = real n\<rparr>"

definition example_world ::
  "(nat \<Rightarrow> string \<Rightarrow> string call) \<Rightarrow> (nat \<Rightarrow> string \<Rightarrow> string list \<times> stream_end) \<Rightarrow> string world" where
  "example_world c sc =
     \<lparr>registry = example_registry, environ = (\<lambda>v. Some ''test-api-key''),
      openai_api_keys = None, openai_api_base_urls = None,
      times = example_clock, upstream = c, stream_complete = sc\<rparr>"

definition example_request :: "unit ProviderRequest" where
  "example_request = \<lparr>model = ''model1'', payload = ()\<rparr>"

text \<open>The first model streams one chunk and then the connection breaks (the adapter turns
  the transport error into a provider error with status 500 and tag \<open>network\<close>); the second
  model streams its whole answer.\<close>

definition broken_stream :: "nat \<Rightarrow> string \<Rightarrow> string list \<times> stream_end" where
  "broken_stream n model_id =
     (if model_id = ''model1''
      then ([''Hel''], StreamProviderFailure (ProviderError_init ''connection reset'' (Some 500) (Some ''network'')))
      else ([''Hello''], StreamEnd))"

definition no_stream :: "nat \<Rightarrow> string \<Rightarrow> string list \<times> stream_end" where
  "no_stream n model_id = ([], StreamEnd)"

text \<open>Upstreams: one whose deadline always passes, one that always answers with an error
  status, one whose first model answers 500 and whose other models answer 200, and one
  whose calls are cancelled.\<close>

definition never_in_time :: "nat \<Rightarrow> string \<Rightarrow> string call" where
  "never_in_time n model_id = DeadlineExceeded"

definition always_status :: "int \<Rightarrow> string \<Rightarrow> nat \<Rightarrow> string \<Rightarrow> string call" where
  "always_status sc msg n model_id = Completed (Response sc msg (Inl msg))"

definition primary_down :: "nat \<Rightarrow> string \<Rightarrow> string call" where
  "primary_down n model_id =
     (if model_id = ''model1'' then Completed (Response 500 ''Internal server error'' (Inl []))
      else Completed (Response 200 [] (Inr ''Success from fallback'')))"

definition always_cancelled :: "nat \<Rightarrow> string \<Rightarrow> string call" where
  "always_cancelled n model_id = Completed Cancellation"

text \<open>A world in which the provider of the second model is not configured.\<close>

definition unconfigured_world :: "string world" where
  "unconfigured_world =
     (example_world (always_status 500 ''Internal server error'') no_stream)
       \<lparr>registry := example_registry\<lparr>providers := [''provider1'' \<mapsto> example_config ''provider1'']\<rparr>\<rparr>"

text \<open>A breaker with the default parameters that took five failures, at seconds 1 to 5.\<close>

definition five_failures :: "breaker_op list" where
  "five_failures = [RecordFailure 1 1, RecordFailure 2 2, RecordFailure 3 3, RecordFailure 4 4, RecordFailure 5 5]"

definition five_failures_cb :: CircuitBreaker where
  "five_failures_cb =
     cb_record_failure 5 5 ''openai'' (cb_record_failure 4 4 ''openai'' (cb_record_failure 3 3 ''openai''
       (cb_record_failure 2 2 ''openai'' (cb_record_failure 1 1 ''openai'' Map.empty))))"

text \<open>A one-message conversation in the store: the message at address 0, the caller's
  list at address 1; and one retrieved chunk.\<close>

definition example_store :: store where
  "example_store = [DictObj [(''role'', ''user''), (''content'', ''Tell me about Python'')], ListObj [0]]"

definition example_chunk :: RAGChunk where
  "example_chunk =
     \<lparr>doc_id = ''doc1'', doc_title = Some ''Guide'', doc_path = None, chunk_id = ''chunk1'',
      content = ''python'', vector_score = 9 / 10\<rparr>"

definition example_ranked :: RankedChunk where
  "example_ranked =
     \<lparr>chunk = example_chunk, ranked_vector_score = 9 / 10, rerank_score = 0, final_score = 27 / 100,
      preview = ''python''\<rparr>"

text \<open>A breaker that is open has an opening time: what \<open>can_attempt\<close> needs to answer.\<close>

definition breaker_ok :: "CircuitBreakerState \<Rightarrow> bool" where
  "breaker_ok b = (state b \<noteq> Open \<or> opened_at b \<noteq> None)"

text \<open>Inputs of the router: a context with nothing set, a registry whose only model has no
  tool support, and a route for messages with a code block.\<close>

definition no_regex :: "string \<Rightarrow> string \<Rightarrow> bool option" where
  "no_regex pattern text = None"

definition plain_context :: RoutingContext where
  "plain_context =
     \<lparr>last_user_message = ''hello'', has_code_block = False, has_attachments = False,
      rag_enabled = False, estimated_context_tokens = 1, tools_enabled = False,
      response_format_required = None\<rparr>"

definition no_tools_registry :: ModelRegistry where
  "no_tools_registry =
     \<lparr>providers = Map.empty,
      models = [(example_model ''basic'' ''provider1'')\<lparr>supports_tools := False\<rparr>],
      routes = []\<rparr>"

definition no_clause :: RouteClause where
  "no_clause =
     \<lparr>key_has_code_block = None, key_has_attachments = None, key_rag_enabled = None,
      key_tools_enabled = None, key_response_format_required = None,
      key_context_est_tokens_gt = None, key_contains_regex = None\<rparr>"

definition coding_route :: RouteSpec where
  "coding_route =
     \<lparr>name = ''coding'',
      when_condition = \<lparr>always = None, any_clauses = Some [no_clause\<lparr>key_has_code_block := Some True\<rparr>],
                        all_clauses = None\<rparr>,
      use_model = ''model1'', fallback_models = [''model2'', ''model3''], route_timeout_ms = 45000\<rparr>"

text \<open>A registry that lists one id twice, with different capabilities.\<close>

definition duplicate_id_registry :: ModelRegistry where
  "duplicate_id_registry =
     \<lparr>providers = Map.empty,
      models = [example_model ''twin'' ''provider1'',
                (example_model ''twin'' ''provider2'')\<lparr>supports_tools := False\<rparr>],
      routes = []\<rparr>"

section \<open>Evaluation helpers\<close>

lemma tokenize_test: "tokenize ''test'' = [''test'']"
  by code_simp

lemma tokenize_python: "tokenize ''python'' = [''python'']"
  by code_simp

section \<open>Streaming fallback\<close>

text \<open>
  Claim C1: once a candidate's adapter has yielded its first chunk to the caller, no further
  candidate is attempted; a later upstream error is terminal and propagates.
  The executor does otherwise. With the chain model1, model2, where the stream of model1
  yields the chunk \<open>Hel\<close> and then fails with a provider error (status 500, tag network),
  \<open>stream_with_fallback\<close> catches the error, calls the adapter of model2 and hands its
  chunks to the same caller, who receives \<open>Hel\<close>, \<open>Hello\<close> and a normal end of stream.
\<close>

theorem stream_restreams_after_first_chunk:
  "(case stream_with_fallback (example_world never_in_time broken_stream) Map.empty
           example_adapters example_request ''model1'' [''model2''] of
      (r, s, evs) \<Rightarrow>
        r = StreamFinished \<and>
        evs = [Admitted 1 ''model1'', Invoked 1 ''model1'', Yielded ''Hel'',
               Admitted 2 ''model2'', Invoked 2 ''model2'', Yielded ''Hello''] \<and>
        \<not> no_invoke_after_yield evs)"
  by code_simp

section \<open>Circuit breaker\<close>

text \<open>
  Claim C2: a failure recorded in state half-open returns the breaker to open, with
  \<open>opened_at\<close> set to the current time.
  \<open>record_failure\<close> opens the breaker only from state closed. A breaker with the default
  parameters that opened at second 5 and was probed at second 100 is half-open; a failure
  recorded at second 101 leaves it half-open, with \<open>opened_at\<close> still 5.
\<close>

theorem failed_probe_stays_half_open:
  "run_breaker_ops (CircuitBreakerState_init 5 60 1) (five_failures @ [CanAttempt 100, RecordFailure 101 101]) =
     Inr \<lparr>failure_threshold = 5, timeout_seconds = 60, half_open_attempts = 1, failure_count = 6,
          last_failure_time = Some 101, state = HalfOpen, opened_at = Some 5\<rparr>"
  by (simp add: five_failures_def record_failure_def can_attempt_def CircuitBreakerState_init_def Let_def)

text \<open>
  Claim C3: in every reachable breaker state, also after the admin reset, state open implies
  that \<open>opened_at\<close> is set and that the failure count is at least the threshold.
  The reset endpoint records a success, and \<open>record_success\<close> closes the breaker only from
  state half-open: after five failures and a reset by an admin the breaker of the provider
  is still open, with failure count 0 below the threshold 5.
\<close>

theorem reset_leaves_open_breaker_below_threshold:
  "(case reset_circuit_breaker ''admin'' ''openai'' five_failures_cb of
      Inl status \<Rightarrow> False
    | Inr cb \<Rightarrow>
        state (get_breaker five_failures_cb ''openai'') = Open \<and>
        state (get_breaker cb ''openai'') = Open \<and>
        failure_count (get_breaker cb ''openai'') = 0 \<and>
        failure_threshold (get_breaker cb ''openai'') = 5 \<and>
        opened_at (get_breaker cb ''openai'') = Some 5)"
  by (simp add: reset_circuit_breaker_def five_failures_cb_def cb_record_success_def cb_record_failure_def
      get_breaker_def record_success_def record_failure_def CircuitBreakerState_init_def Let_def)

section \<open>Prompt injection\<close>

text \<open>
  Claim C6: \<open>inject_chunks_into_prompt\<close> never mutates the caller's message list nor any
  message in it, for both strategies.
  The function copies the list, not the messages. With strategy \<open>user\<close> it writes the new
  content into the first user message, which the copy shares with the caller's list: after
  the call the caller's list at address 1 reads differently, the message at address 0
  holds the injected text.
\<close>

theorem user_injection_mutates_callers_message:
  "(case inject_chunks_into_prompt example_store 1 [example_ranked] ''user'' of
      Inl e \<Rightarrow> False
    | Inr (h, a) \<Rightarrow>
        a = 2 \<and>
        read_messages example_store 1 = Some [[(''role'', ''user''), (''content'', ''Tell me about Python'')]] \<and>
        read_messages h 1 \<noteq> read_messages example_store 1 \<and>
        h ! 0 = DictObj [(''role'', ''user''),
                         (''content'', injection_content [example_ranked] @ newline @ newline @ ''---'' @
                                       newline @ newline @ ''User question: Tell me about Python'')])"
  by code_simp

section \<open>Reranker\<close>

text \<open>
  Claim C7: the reranker returns chunks sorted by final score, at most \<open>top_k\<close> of them,
  with previews of at most 403 characters.
  \<open>rerank\<close> cuts the list only when \<open>top_k\<close> is truthy, and 0 is not: asked for the top 0
  of one chunk it returns that chunk.
\<close>

theorem top_k_zero_returns_all:
  "(case rerank LexicalReranker_default 0 0 ''test'' [example_chunk] (Some 0) of
      Inl e \<Rightarrow> False
    | Inr r \<Rightarrow> length (ranked_chunks r) = 1)"
  by (simp add: rerank_def example_chunk_def tokenize_python tokenize_test calculate_idf_def idf_of_term_def
      bm25_score_def length_norm_def idf_get_def LexicalReranker_default_def Let_def)

text \<open>
  Claim C8: the normalized lexical score of every candidate lies between 0 and 1.
  A query term that occurs in more than half of the candidates has a negative IDF, the sum
  of the IDFs is then not positive, and the score is returned as it is. For the query
  \<open>python\<close> and the single candidate \<open>python\<close> the lexical score is \<open>ln (1/3)\<close>, below 0.
\<close>

theorem bm25_score_negative:
  "(case rerank LexicalReranker_default 0 0 ''python'' [example_chunk] None of
      Inl e \<Rightarrow> False
    | Inr r \<Rightarrow> map rerank_score (ranked_chunks r) = [ln (1 / 3)] \<and> ln (1 / 3) < (0::real))"
  by (simp add: rerank_def example_chunk_def tokenize_python calculate_idf_def idf_of_term_def
      bm25_score_def length_norm_def idf_get_def LexicalReranker_default_def Let_def ln_div)

section \<open>The executors, candidate by candidate\<close>

text \<open>
  What the adapter delivers to the executor, in terms of the upstream: a response exactly
  when the upstream answered in time with status 200 and a body that parses; a cancellation
  exactly when the call was cancelled; never another exception; and only three kinds of
  provider error.
\<close>
lemma awaited_Success: "(awaited a c = Success r) = (call_verdict c = Answered r)"
  by (cases c rule: call_verdict.cases)
     (auto simp: awaited_def adapter_complete_def complete_body_def)

lemma awaited_Cancelled: "(awaited a c = Cancelled) = (call_verdict c = Aborted)"
  by (cases c rule: call_verdict.cases)
     (auto simp: awaited_def adapter_complete_def complete_body_def)

lemma awaited_not_other: "awaited a c \<noteq> OtherException t"
  by (cases c rule: call_verdict.cases)
     (auto simp: awaited_def adapter_complete_def complete_body_def)


lemma awaited_no_answer:
  "awaited a c = TimeoutError \<or> (\<exists>e. awaited a c = ProviderFailure e) \<Longrightarrow> call_verdict c = NoAnswer"
  by (cases c rule: call_verdict.cases)
     (auto simp: awaited_def adapter_complete_def complete_body_def split: if_splits)

lemma awaited_verdict:
  "call_verdict c =
     (case awaited a c of
        Success r \<Rightarrow> Answered r
      | Cancelled \<Rightarrow> Aborted
      | TimeoutError \<Rightarrow> NoAnswer
      | ProviderFailure e \<Rightarrow> NoAnswer
      | OtherException t \<Rightarrow> NoAnswer)"
  by (cases c rule: call_verdict.cases)
     (auto simp: awaited_def adapter_complete_def complete_body_def split: if_splits)

text \<open>
  One iteration of either loop does what the candidate's verdict says: it stops with the
  response, the cancellation or the breaker's error, or goes on; and it sets the request's
  model to the candidate exactly when the candidate is admitted.
\<close>

lemma execute_step_by_verdict:
  assumes step: "execute_step w tmo n model_id s = (st, s', evs)"
  shows "st = (case candidate_verdict w n model_id (breakers s) (adapters s) (call_verdict (upstream w n model_id)) of
                 Answered r \<Rightarrow> Stop (Returned r (fallback_attempts s'))
               | Aborted \<Rightarrow> Stop RaisedCancelledError
               | Broken e \<Rightarrow> Stop (RaisedPyError e)
               | Skipped \<Rightarrow> Continue
               | Refused \<Rightarrow> Continue
               | Unavailable \<Rightarrow> Continue
               | NoAnswer \<Rightarrow> Continue) \<and>
         request s' =
           (if admitted (candidate_verdict w n model_id (breakers s) (adapters s) (call_verdict (upstream w n model_id)))
            then (request s)\<lparr>model := model_id\<rparr> else request s)"
proof (cases "get_model (registry w) model_id")
  case None
  with step show ?thesis by (auto simp: execute_step_def candidate_verdict_def)
next
  case (Some m)
  show ?thesis
  proof (cases "can_attempt (t_check (times w n)) (get_breaker (breakers s) (provider m))")
    case (Inl e)
    with step Some show ?thesis
      by (auto simp: execute_step_def candidate_verdict_def cb_can_attempt_def)
  next
    case (Inr okb)
    obtain ok b where okb: "okb = (ok, b)" by (cases okb)
    show ?thesis
    proof (cases ok)
      case False
      with step Some Inr okb show ?thesis
        by (auto simp: execute_step_def candidate_verdict_def cb_can_attempt_def)
    next
      case True
      show ?thesis
      proof (cases "get_adapter w (adapters s) m")
        case noad: (Inl msg)
        with step Some Inr okb True show ?thesis
          by (auto simp: execute_step_def candidate_verdict_def cb_can_attempt_def try_complete_def Let_def)
      next
        case ad: (Inr x)
        obtain a ads' where x: "x = (a, ads')" by (cases x)
        have cv: "candidate_verdict w n model_id (breakers s) (adapters s) (call_verdict (upstream w n model_id))
                    = call_verdict (upstream w n model_id)"
          using Some Inr okb True ad by (simp add: candidate_verdict_def)
        show ?thesis
        proof (cases "awaited a (upstream w n model_id)")
          case (Success r)
          then have v: "candidate_verdict w n model_id (breakers s) (adapters s) (call_verdict (upstream w n model_id)) = Answered r"
            using cv awaited_verdict [of "upstream w n model_id" a] by simp
          from step Some Inr okb True ad x Success show ?thesis
            unfolding v
            by (auto simp: execute_step_def cb_can_attempt_def try_complete_def Let_def)
        next
          case TimeoutError
          then have v: "candidate_verdict w n model_id (breakers s) (adapters s) (call_verdict (upstream w n model_id)) = NoAnswer"
            using cv awaited_verdict [of "upstream w n model_id" a] by simp
          from step Some Inr okb True ad x TimeoutError show ?thesis
            unfolding v
            by (auto simp: execute_step_def cb_can_attempt_def try_complete_def Let_def)
        next
          case (ProviderFailure e)
          then have v: "candidate_verdict w n model_id (breakers s) (adapters s) (call_verdict (upstream w n model_id)) = NoAnswer"
            using cv awaited_verdict [of "upstream w n model_id" a] by simp
          from step Some Inr okb True ad x ProviderFailure show ?thesis
            unfolding v
            by (auto simp: execute_step_def cb_can_attempt_def try_complete_def Let_def)
        next
          case (OtherException t)
          with awaited_not_other show ?thesis by blast
        next
          case Cancelled
          then have v: "candidate_verdict w n model_id (breakers s) (adapters s) (call_verdict (upstream w n model_id)) = Aborted"
            using cv awaited_verdict [of "upstream w n model_id" a] by simp
          from step Some Inr okb True ad x Cancelled show ?thesis
            unfolding v
            by (auto simp: execute_step_def cb_can_attempt_def try_complete_def Let_def)
        qed
      qed
    qed
  qed
qed

lemma stream_verdict_end:
  "stream_verdict (chunks, fin) =
     (case fin of StreamEnd \<Rightarrow> Answered () | StreamCancelled \<Rightarrow> Aborted
      | StreamProviderFailure e \<Rightarrow> NoAnswer | StreamOtherException t \<Rightarrow> NoAnswer)"
  by (cases fin) auto

lemma stream_step_by_verdict:
  assumes step: "stream_step w n model_id s = (st, s', evs)"
  shows "st = (case candidate_verdict w n model_id (breakers s) (adapters s) (stream_verdict (stream_complete w n model_id)) of
                 Answered r \<Rightarrow> Stop StreamFinished
               | Aborted \<Rightarrow> Stop StreamCancellation
               | Broken e \<Rightarrow> Stop (StreamPyError e)
               | Skipped \<Rightarrow> Continue
               | Refused \<Rightarrow> Continue
               | Unavailable \<Rightarrow> Continue
               | NoAnswer \<Rightarrow> Continue) \<and>
         request s' =
           (if admitted (candidate_verdict w n model_id (breakers s) (adapters s) (stream_verdict (stream_complete w n model_id)))
            then (request s)\<lparr>model := model_id\<rparr> else request s)"
proof (cases "get_model (registry w) model_id")
  case None
  with step show ?thesis by (auto simp: stream_step_def candidate_verdict_def)
next
  case (Some m)
  show ?thesis
  proof (cases "can_attempt (t_check (times w n)) (get_breaker (breakers s) (provider m))")
    case (Inl e)
    with step Some show ?thesis
      by (auto simp: stream_step_def candidate_verdict_def cb_can_attempt_def)
  next
    case (Inr okb)
    obtain ok b where okb: "okb = (ok, b)" by (cases okb)
    show ?thesis
    proof (cases ok)
      case False
      with step Some Inr okb show ?thesis
        by (auto simp: stream_step_def candidate_verdict_def cb_can_attempt_def)
    next
      case True
      show ?thesis
      proof (cases "get_adapter w (adapters s) m")
        case noad: (Inl msg)
        with step Some Inr okb True show ?thesis
          by (auto simp: stream_step_def candidate_verdict_def cb_can_attempt_def try_stream_def Let_def)
      next
        case ad: (Inr x)
        obtain a ads' where x: "x = (a, ads')" by (cases x)
        obtain chunks fin where sc: "stream_complete w n model_id = (chunks, fin)"
          by (cases "stream_complete w n model_id")
        have cv: "candidate_verdict w n model_id (breakers s) (adapters s) (stream_verdict (stream_complete w n model_id))
                    = stream_verdict (chunks, fin)"
          using Some Inr okb True ad sc by (simp add: candidate_verdict_def)
        show ?thesis
        proof (cases fin)
          case StreamEnd
          with cv have v: "candidate_verdict w n model_id (breakers s) (adapters s) (stream_verdict (stream_complete w n model_id)) = Answered ()"
            by simp
          from step Some Inr okb True ad x sc StreamEnd show ?thesis
            unfolding v by (auto simp: stream_step_def cb_can_attempt_def try_stream_def Let_def)
        next
          case (StreamProviderFailure e)
          with cv have v: "candidate_verdict w n model_id (breakers s) (adapters s) (stream_verdict (stream_complete w n model_id)) = NoAnswer"
            by simp
          from step Some Inr okb True ad x sc StreamProviderFailure show ?thesis
            unfolding v by (auto simp: stream_step_def cb_can_attempt_def try_stream_def Let_def)
        next
          case (StreamOtherException t)
          with cv have v: "candidate_verdict w n model_id (breakers s) (adapters s) (stream_verdict (stream_complete w n model_id)) = NoAnswer"
            by simp
          from step Some Inr okb True ad x sc StreamOtherException show ?thesis
            unfolding v by (auto simp: stream_step_def cb_can_attempt_def try_stream_def Let_def)
        next
          case StreamCancelled
          with cv have v: "candidate_verdict w n model_id (breakers s) (adapters s) (stream_verdict (stream_complete w n model_id)) = Aborted"
            by simp
          from step Some Inr okb True ad x sc StreamCancelled show ?thesis
            unfolding v by (auto simp: stream_step_def cb_can_attempt_def try_stream_def Let_def)
        qed
      qed
    qed
  qed
qed

lemma final_verdict_Cons: "T \<noteq> [] \<Longrightarrow> final_verdict (x # T) = final_verdict T"
  by (cases T) auto

lemma execute_loop_by_trace:
  "execute_loop w tmo n chain s = (r, s', evs) \<Longrightarrow>
   request s' = (request s)\<lparr>model := final_model (model (request s)) (execute_trace w tmo n chain s)\<rparr> \<and>
   (if list_all continues (map snd (execute_trace w tmo n chain s))
    then map fst (execute_trace w tmo n chain s) = chain \<and> r = RaisedProviderError all_fallbacks_failed
    else (case final_verdict (execute_trace w tmo n chain s) of
            Answered x \<Rightarrow> r = Returned x (fallback_attempts s')
          | Aborted \<Rightarrow> r = RaisedCancelledError
          | Broken e \<Rightarrow> r = RaisedPyError e
          | Skipped \<Rightarrow> False | Refused \<Rightarrow> False | Unavailable \<Rightarrow> False | NoAnswer \<Rightarrow> False))"
proof (induction chain arbitrary: n s r s' evs)
  case Nil
  then show ?case by simp
next
  case (Cons model_id rest)
  let ?v = "candidate_verdict w n model_id (breakers s) (adapters s) (call_verdict (upstream w n model_id))"
  obtain st s1 evs1 where step: "execute_step w tmo n model_id s = (st, s1, evs1)"
    by (cases "execute_step w tmo n model_id s") auto
  note sv = execute_step_by_verdict [OF step]
  show ?case
  proof (cases "continues ?v")
    case True
    with sv have st: "st = Continue" by (cases ?v) auto
    let ?T' = "execute_trace w tmo (Suc n) rest s1"
    have T: "execute_trace w tmo n (model_id # rest) s = (model_id, ?v) # ?T'"
      using True step by (simp add: Let_def)
    obtain r2 s2 evs2 where rest: "execute_loop w tmo (Suc n) rest s1 = (r2, s2, evs2)"
      by (cases "execute_loop w tmo (Suc n) rest s1") auto
    from Cons.prems step st rest have eq: "r = r2" "s' = s2" by auto
    note IH = Cons.IH [OF rest]
    have req: "request s' = (request s)\<lparr>model := final_model (model (request s)) ((model_id, ?v) # ?T')\<rparr>"
      using IH sv by (simp add: eq)
    have res: "(if list_all continues (map snd ((model_id, ?v) # ?T'))
        then map fst ((model_id, ?v) # ?T') = model_id # rest \<and> r = RaisedProviderError all_fallbacks_failed
        else (case final_verdict ((model_id, ?v) # ?T') of
            Answered x \<Rightarrow> r = Returned x (fallback_attempts s')
          | Aborted \<Rightarrow> r = RaisedCancelledError
          | Broken e \<Rightarrow> r = RaisedPyError e
          | Skipped \<Rightarrow> False | Refused \<Rightarrow> False | Unavailable \<Rightarrow> False | NoAnswer \<Rightarrow> False))"
    proof (cases "list_all continues (map snd ?T')")
      case all: True
      with IH True show ?thesis unfolding eq by simp
    next
      case False
      then have "?T' \<noteq> []" by auto
      then have "final_verdict ((model_id, ?v) # ?T') = final_verdict ?T'" by (rule final_verdict_Cons)
      with IH False show ?thesis unfolding eq by simp
    qed
    from req res show ?thesis unfolding T by blast
  next
    case False
    have T: "execute_trace w tmo n (model_id # rest) s = [(model_id, ?v)]"
      using False by (simp add: Let_def)
    from False sv obtain x where st: "st = Stop x" by (cases ?v) auto
    with Cons.prems step have eq: "r = x" "s' = s1" by auto
    from False sv st show ?thesis unfolding T by (cases ?v) (auto simp: eq)
  qed
qed

lemma stream_loop_by_trace:
  "stream_loop w n chain s = (r, s', evs) \<Longrightarrow>
   request s' = (request s)\<lparr>model := final_model (model (request s)) (stream_trace w n chain s)\<rparr> \<and>
   (if list_all continues (map snd (stream_trace w n chain s))
    then map fst (stream_trace w n chain s) = chain \<and> r = StreamRaised all_fallbacks_failed_streaming
    else (case final_verdict (stream_trace w n chain s) of
            Answered x \<Rightarrow> r = StreamFinished
          | Aborted \<Rightarrow> r = StreamCancellation
          | Broken e \<Rightarrow> r = StreamPyError e
          | Skipped \<Rightarrow> False | Refused \<Rightarrow> False | Unavailable \<Rightarrow> False | NoAnswer \<Rightarrow> False))"
proof (induction chain arbitrary: n s r s' evs)
  case Nil
  then show ?case by simp
next
  case (Cons model_id rest)
  let ?v = "candidate_verdict w n model_id (breakers s) (adapters s) (stream_verdict (stream_complete w n model_id))"
  obtain st s1 evs1 where step: "stream_step w n model_id s = (st, s1, evs1)"
    by (cases "stream_step w n model_id s") auto
  note sv = stream_step_by_verdict [OF step]
  show ?case
  proof (cases "continues ?v")
    case True
    with sv have st: "st = Continue" by (cases ?v) auto
    let ?T' = "stream_trace w (Suc n) rest s1"
    have T: "stream_trace w n (model_id # rest) s = (model_id, ?v) # ?T'"
      using True step by (simp add: Let_def)
    obtain r2 s2 evs2 where rest: "stream_loop w (Suc n) rest s1 = (r2, s2, evs2)"
      by (cases "stream_loop w (Suc n) rest s1") auto
    from Cons.prems step st rest have eq: "r = r2" "s' = s2" by auto
    note IH = Cons.IH [OF rest]
    have req: "request s' = (request s)\<lparr>model := final_model (model (request s)) ((model_id, ?v) # ?T')\<rparr>"
      using IH sv by (simp add: eq)
    have res: "(if list_all continues (map snd ((model_id, ?v) # ?T'))
        then map fst ((model_id, ?v) # ?T') = model_id # rest \<and> r = StreamRaised all_fallbacks_failed_streaming
        else (case final_verdict ((model_id, ?v) # ?T') of
            Answered x \<Rightarrow> r = StreamFinished
          | Aborted \<Rightarrow> r = StreamCancellation
          | Broken e \<Rightarrow> r = StreamPyError e
          | Skipped \<Rightarrow> False | Refused \<Rightarrow> False | Unavailable \<Rightarrow> False | NoAnswer \<Rightarrow> False))"
    proof (cases "list_all continues (map snd ?T')")
      case all: True
      with IH True show ?thesis unfolding eq by simp
    next
      case False
      then have "?T' \<noteq> []" by auto
      then have "final_verdict ((model_id, ?v) # ?T') = final_verdict ?T'" by (rule final_verdict_Cons)
      with IH False show ?thesis unfolding eq by simp
    qed
    from req res show ?thesis unfolding T by blast
  next
    case False
    have T: "stream_trace w n (model_id # rest) s = [(model_id, ?v)]"
      using False by (simp add: Let_def)
    from False sv obtain x where st: "st = Stop x" by (cases ?v) auto
    with Cons.prems step have eq: "r = x" "s' = s1" by auto
    from False sv st show ?thesis unfolding T by (cases ?v) (auto simp: eq)
  qed
qed

lemma admitted_call_verdict: "admitted (call_verdict c)"
  by (cases c rule: call_verdict.cases) auto

lemma admitted_stream_verdict: "admitted (stream_verdict x)"
  by (cases x rule: stream_verdict.cases) auto

lemma admitted_iff_registered_and_allowed:
  assumes "admitted called"
  shows "admitted (candidate_verdict w n model_id cb ads called) =
           (\<exists>m b. get_model (registry w) model_id = Some m \<and>
                  can_attempt (t_check (times w n)) (get_breaker cb (provider m)) = Inr (True, b))"
  using assms
  by (auto simp: candidate_verdict_def split: option.splits sum.splits)

lemma execute_trace_prefix:
  "map fst (execute_trace w tmo n chain s) = take (length (execute_trace w tmo n chain s)) chain \<and>
   list_all continues (map snd (butlast (execute_trace w tmo n chain s)))"
  by (induction chain arbitrary: n s) (auto simp: Let_def)

lemma stream_trace_prefix:
  "map fst (stream_trace w n chain s) = take (length (stream_trace w n chain s)) chain \<and>
   list_all continues (map snd (butlast (stream_trace w n chain s)))"
  by (induction chain arbitrary: n s) (auto simp: Let_def)

lemma all_continue_iff_final:
  "T \<noteq> [] \<Longrightarrow> list_all continues (map snd (butlast T)) \<Longrightarrow>
   list_all continues (map snd T) = continues (final_verdict T)"
  by (induction T rule: final_verdict.induct) auto

section \<open>The request's model field\<close>

text \<open>
  Counterexample to claim C10 as stated. The provider of model2 is not configured and has
  no cached adapter. The adapter of model1 is called and fails; model2 passes the registry
  and the breaker, the request's model is set to it, and acquiring its adapter raises
  before any call. After the run the request's model is model2, while the last candidate
  whose adapter was invoked is model1.
\<close>

theorem request_model_not_last_invoked:
  "last_invoked (snd (snd (execute_with_fallback unconfigured_world Map.empty Map.empty example_request
                              ''model1'' [''model2''] 30000))) = Some ''model1'' \<and>
   model (request (fst (snd (execute_with_fallback unconfigured_world Map.empty Map.empty example_request
                              ''model1'' [''model2''] 30000)))) = ''model2''"
  by code_simp

text \<open>
  Claim C10, amended: \<open>execute_with_fallback\<close> and \<open>stream_with_fallback\<close> change the
  caller's request in place, and only its model field. The candidates are gone through in
  order until one answers, is cancelled or meets a breaker that raises. After the call,
  whether it returned or raised, the model field is the id of the last of these candidates
  that was found in the registry and admitted by its provider's breaker, whether or not
  its adapter could be acquired or was called; when there is none, it is the value the
  field had at call time. (By \<open>admitted_iff_registered_and_allowed\<close>, a verdict is
  admitted exactly when the registry resolves the id and \<open>can_attempt\<close> answers yes.)
\<close>

theorem request_model_is_last_admitted_candidate:
  "request (fst (snd (execute_with_fallback w cb ads req primary fallbacks tmo))) =
     req\<lparr>model := final_model (model req)
                    (execute_trace w tmo 1 (primary # fallbacks)
                       \<lparr>breakers = cb, adapters = ads, request = req, fallback_attempts = []\<rparr>)\<rparr> \<and>
   request (fst (snd (stream_with_fallback w cb ads req primary fallbacks))) =
     req\<lparr>model := final_model (model req)
                    (stream_trace w 1 (primary # fallbacks)
                       \<lparr>breakers = cb, adapters = ads, request = req, fallback_attempts = []\<rparr>)\<rparr>"
proof -
  let ?s0 = "\<lparr>breakers = cb, adapters = ads, request = req, fallback_attempts = []\<rparr>"
  obtain r s evs where run: "execute_loop w tmo 1 (primary # fallbacks) ?s0 = (r, s, evs)"
    using prod_cases3 by blast
  obtain r' s' evs' where srun: "stream_loop w 1 (primary # fallbacks) ?s0 = (r', s', evs')"
    using prod_cases3 by blast
  from execute_loop_by_trace [OF run] have
    "request s = req\<lparr>model := final_model (model req) (execute_trace w tmo 1 (primary # fallbacks) ?s0)\<rparr>"
    by simp
  moreover from stream_loop_by_trace [OF srun] have
    "request s' = req\<lparr>model := final_model (model req) (stream_trace w 1 (primary # fallbacks) ?s0)\<rparr>"
    by simp
  ultimately show ?thesis
    unfolding execute_with_fallback_def stream_with_fallback_def run srun by simp
qed

text \<open>The theorem at the input of the counterexample: model1 is called and gives no
  answer, model2 is admitted and has no adapter, and the request ends with model2.\<close>

theorem request_model_witness:
  "final_model (model example_request)
     (execute_trace unconfigured_world 30000 1 [''model1'', ''model2'']
        \<lparr>breakers = Map.empty, adapters = Map.empty, request = example_request, fallback_attempts = []\<rparr>)
     = ''model2'' \<and>
   map snd (execute_trace unconfigured_world 30000 1 [''model1'', ''model2'']
        \<lparr>breakers = Map.empty, adapters = Map.empty, request = example_request, fallback_attempts = []\<rparr>)
     = [NoAnswer, Unavailable] \<and>
   request (fst (snd (execute_with_fallback unconfigured_world Map.empty Map.empty example_request
                        ''model1'' [''model2''] 30000))) = example_request\<lparr>model := ''model2''\<rparr>"
proof -
  have t: "execute_trace unconfigured_world 30000 1 [''model1'', ''model2'']
        \<lparr>breakers = Map.empty, adapters = Map.empty, request = example_request, fallback_attempts = []\<rparr>
     = [(''model1'', NoAnswer), (''model2'', Unavailable)]"
    by code_simp
  from request_model_is_last_admitted_candidate
         [of unconfigured_world Map.empty Map.empty example_request "''model1''" "[''model2'']" 30000] t
  show ?thesis by simp
qed

section \<open>Failure of the whole chain\<close>

text \<open>
  Counterexample to claim C5 as stated. A run whose only candidate answers 500 accumulates
  one attempt record; a run whose only candidate is not registered accumulates none. Both
  raise the very same error value, so the error cannot carry the attempt list. And a run
  whose first call is cancelled has no candidate that succeeds, yet it leaves with the
  cancellation, not with the error \<open>all_fallbacks_failed\<close>.
\<close>

theorem all_fallbacks_failed_error_has_no_attempts:
  "fst (execute_with_fallback (example_world (always_status 500 ''Internal server error'') no_stream) Map.empty
          example_adapters example_request ''model1'' [] 30000)
     = RaisedProviderError all_fallbacks_failed \<and>
   fst (execute_with_fallback (example_world (always_status 500 ''Internal server error'') no_stream) Map.empty
          example_adapters example_request ''unregistered'' [] 30000)
     = RaisedProviderError all_fallbacks_failed \<and>
   map fa_error_type (fallback_attempts (fst (snd (execute_with_fallback
          (example_world (always_status 500 ''Internal server error'') no_stream) Map.empty
          example_adapters example_request ''model1'' [] 30000)))) = [Some ''unknown''] \<and>
   fallback_attempts (fst (snd (execute_with_fallback
          (example_world (always_status 500 ''Internal server error'') no_stream) Map.empty
          example_adapters example_request ''unregistered'' [] 30000))) = [] \<and>
   fst (execute_with_fallback (example_world always_cancelled no_stream) Map.empty
          example_adapters example_request ''model1'' [''model2''] 30000)
     = RaisedCancelledError \<and>
   map snd (execute_trace (example_world always_cancelled no_stream) 30000 1 [''model1'', ''model2'']
          \<lparr>breakers = Map.empty, adapters = example_adapters, request = example_request,
           fallback_attempts = []\<rparr>) = [Aborted]"
  by code_simp

text \<open>
  Claim C5, amended: \<open>execute_with_fallback\<close> goes through the chain
  \<open>[primary] ++ fallbacks\<close> in order, each candidate meeting the breakers and adapters
  its predecessors left. It raises the error \<open>all_fallbacks_failed\<close> exactly when every
  candidate of the chain has been reached and none of them ended the run: each was unknown
  to the registry, refused by its breaker, without adapter, or called without giving a
  response. It raises no other provider error. When a candidate answers, the run returns
  that response with the accumulated attempt list; a cancelled call leaves with the
  cancellation and a breaker that raises leaves with its error. The error
  \<open>all_fallbacks_failed\<close> is one fixed value (message "All models in fallback chain
  failed", status 500); it has no field for attempt records and the list accumulated
  during the run is not attached to it.
\<close>

theorem all_fallbacks_failed_iff_every_candidate_fails:
  "(let chain = primary # fallbacks;
        R = execute_with_fallback w cb ads req primary fallbacks tmo;
        T = execute_trace w tmo 1 chain
              \<lparr>breakers = cb, adapters = ads, request = req, fallback_attempts = []\<rparr>
    in ((fst R = RaisedProviderError all_fallbacks_failed) =
          (map fst T = chain \<and> list_all continues (map snd T))) \<and>
       ((\<exists>e. fst R = RaisedProviderError e) = (fst R = RaisedProviderError all_fallbacks_failed)) \<and>
       (case final_verdict T of
          Answered r \<Rightarrow> fst R = Returned r (fallback_attempts (fst (snd R)))
        | Aborted \<Rightarrow> fst R = RaisedCancelledError
        | Broken e \<Rightarrow> fst R = RaisedPyError e
        | Skipped \<Rightarrow> fst R = RaisedProviderError all_fallbacks_failed
        | Refused \<Rightarrow> fst R = RaisedProviderError all_fallbacks_failed
        | Unavailable \<Rightarrow> fst R = RaisedProviderError all_fallbacks_failed
        | NoAnswer \<Rightarrow> fst R = RaisedProviderError all_fallbacks_failed))"
proof -
  let ?s0 = "\<lparr>breakers = cb, adapters = ads, request = req, fallback_attempts = []\<rparr>"
  let ?T = "execute_trace w tmo 1 (primary # fallbacks) ?s0"
  obtain r s evs where run: "execute_loop w tmo 1 (primary # fallbacks) ?s0 = (r, s, evs)"
    using prod_cases3 by blast
  note tr = execute_loop_by_trace [OF run]
  have pre: "list_all continues (map snd (butlast ?T))"
    using execute_trace_prefix by blast
  have ne: "?T \<noteq> []" by (simp add: Let_def)
  have last: "list_all continues (map snd ?T) = continues (final_verdict ?T)"
    using ne pre by (rule all_continue_iff_final)
  show ?thesis
  proof (cases "list_all continues (map snd ?T)")
    case True
    with tr have "map fst ?T = primary # fallbacks" and r: "r = RaisedProviderError all_fallbacks_failed"
      by simp_all
    moreover from True last have "continues (final_verdict ?T)" by simp
    ultimately show ?thesis
      unfolding execute_with_fallback_def run Let_def using True
      by (cases "final_verdict ?T") simp_all
  next
    case False
    with last have nc: "\<not> continues (final_verdict ?T)" by simp
    from False tr have res: "(case final_verdict ?T of
            Answered x \<Rightarrow> r = Returned x (fallback_attempts s)
          | Aborted \<Rightarrow> r = RaisedCancelledError
          | Broken e \<Rightarrow> r = RaisedPyError e
          | Skipped \<Rightarrow> False | Refused \<Rightarrow> False | Unavailable \<Rightarrow> False | NoAnswer \<Rightarrow> False)"
      by simp
    from res nc False show ?thesis
      unfolding execute_with_fallback_def run Let_def
      by (cases "final_verdict ?T") simp_all
  qed
qed

text \<open>The theorem at a chain whose primary answers 500 and whose fallback answers 200: the
  run returns the fallback's response and does not raise.\<close>

theorem fallback_answers_when_primary_is_down:
  "final_verdict (execute_trace (example_world primary_down no_stream) 30000 1 [''model1'', ''model2'']
       \<lparr>breakers = Map.empty, adapters = example_adapters, request = example_request,
        fallback_attempts = []\<rparr>) = Answered ''Success from fallback'' \<and>
   fst (execute_with_fallback (example_world primary_down no_stream) Map.empty example_adapters
          example_request ''model1'' [''model2''] 30000) =
     Returned ''Success from fallback''
       (fallback_attempts (fst (snd (execute_with_fallback (example_world primary_down no_stream) Map.empty
          example_adapters example_request ''model1'' [''model2''] 30000)))) \<and>
   fst (execute_with_fallback (example_world primary_down no_stream) Map.empty example_adapters
          example_request ''model1'' [''model2''] 30000) \<noteq> RaisedProviderError all_fallbacks_failed"
proof -
  have v: "final_verdict (execute_trace (example_world primary_down no_stream) 30000 1 [''model1'', ''model2'']
       \<lparr>breakers = Map.empty, adapters = example_adapters, request = example_request,
        fallback_attempts = []\<rparr>) = Answered ''Success from fallback''"
    by code_simp
  from all_fallbacks_failed_iff_every_candidate_fails
         [of "''model1''" "[''model2'']" "example_world primary_down no_stream" Map.empty example_adapters
             example_request 30000] v
  show ?thesis by (simp add: Let_def)
qed

section \<open>Provider errors and the breaker\<close>






text \<open>An upstream that answers 402: the attempt is recorded with status 500 and tag
  \<open>unknown\<close>, and the failure is counted.\<close>

lemma upstream_402_is_counted:
  "map fa_error_type (fallback_attempts (fst (snd (execute_with_fallback
       (example_world (always_status 402 ''Payment required'') no_stream) Map.empty
       example_adapters example_request ''model1'' [] 30000)))) = [Some ''unknown''] \<and>
   map fa_status_code (fallback_attempts (fst (snd (execute_with_fallback
       (example_world (always_status 402 ''Payment required'') no_stream) Map.empty
       example_adapters example_request ''model1'' [] 30000)))) = [Some 500] \<and>
   failure_count (get_breaker (breakers (fst (snd (execute_with_fallback
       (example_world (always_status 402 ''Payment required'') no_stream) Map.empty
       example_adapters example_request ''model1'' [] 30000)))) ''provider1'') = 1"
  by code_simp

section \<open>Capability soundness of routing decisions\<close>

lemma get_model_member:
  "get_model reg i = Some m \<Longrightarrow> m \<in> set (models reg) \<and> id_spec m = i"
  by (auto simp: get_model_def models_by_id_def dest!: map_of_SomeD)

lemma get_model_distinct:
  assumes "distinct (map id_spec (models reg))" and "m \<in> set (models reg)"
  shows "get_model reg (id_spec m) = Some m"
proof -
  have "distinct (map fst (rev (map (\<lambda>m. (id_spec m, m)) (models reg))))"
    using assms(1) by (simp add: rev_map [symmetric] comp_def)
  moreover have "(id_spec m, m) \<in> set (rev (map (\<lambda>m. (id_spec m, m)) (models reg)))"
    using assms(2) by auto
  ultimately show ?thesis
    unfolding get_model_def models_by_id_def by (rule map_of_is_SomeI)
qed

lemma passes_validation_member:
  assumes "distinct (map id_spec (models reg))" and "m \<in> set (models reg)" and "validate_capabilities m ctx"
  shows "passes_validation reg ctx (id_spec m)"
  using get_model_distinct [OF assms(1,2)] assms(3) by (simp add: passes_validation_def)

lemma get_fallback_models_sound:
  assumes "distinct (map id_spec (models reg))"
  shows "list_all (passes_validation reg ctx) (get_fallback_models reg pm ctx)"
  using assms
  by (auto simp: get_fallback_models_def Let_def list_all_iff dest!: in_set_takeD
      intro: passes_validation_member)

lemma resolve_fallback_chain_sound:
  "list_all (passes_validation reg ctx) (resolve_fallback_chain reg ids ctx)"
  by (auto simp: resolve_fallback_chain_def list_all_iff passes_validation_def)

lemma route_override_sound:
  assumes "distinct (map id_spec (models reg))" and "route_override reg ctx ov = Some d"
  shows "decision_sound reg ctx d"
  using assms(2) get_fallback_models_sound [OF assms(1)]
  by (auto simp: route_override_def decision_sound_def passes_validation_def
      split: option.splits if_splits)

lemma route_rules_sound:
  "route_rules re_search reg ctx rs = Some d \<Longrightarrow> decision_sound reg ctx d"
proof (induction rs)
  case Nil
  then show ?case by simp
next
  case (Cons r rs)
  then show ?case
    using resolve_fallback_chain_sound [of reg ctx "fallback_models r"]
    by (auto simp: decision_sound_def passes_validation_def split: if_splits option.splits)
qed

lemma get_default_route_sound:
  assumes "distinct (map id_spec (models reg))" and "get_default_route reg ctx = Inr d"
  shows "decision_sound reg ctx d \<or>
         (\<not> list_ex (\<lambda>m. validate_capabilities m ctx) (models reg) \<and>
          route_name d = ''fallback_no_match'' \<and> fallback_model_ids d = [] \<and>
          [primary_model_id d] = map id_spec (take 1 (models reg)))"
proof (cases "filter (\<lambda>m. validate_capabilities m ctx) (models reg) = []")
  case True
  then have "\<not> list_ex (\<lambda>m. validate_capabilities m ctx) (models reg)"
    by (simp add: list_ex_iff filter_empty_conv)
  with True assms(2) show ?thesis
    by (auto simp: get_default_route_def split: list.splits)
next
  case False
  let ?cands = "filter (\<lambda>m. validate_capabilities m ctx) (models reg)"
  let ?sorted = "sort_key (\<lambda>m. (- speed_tier m, cost_tier m, - reliability_tier m)) ?cands"
  from False assms(2) obtain p others where srt: "?sorted = p # others"
    and d: "d = \<lparr>primary_model_id = id_spec p, fallback_model_ids = map id_spec (take 3 others),
                 route_name = ''default'', route_reason = ''Default routing: fast and cost-effective'',
                 timeout_ms = 30000\<rparr>"
    by (auto simp: get_default_route_def Let_def split: list.splits)
  have mem: "\<And>x. x \<in> set (p # others) \<Longrightarrow> x \<in> set (models reg) \<and> validate_capabilities x ctx"
  proof -
    fix x assume "x \<in> set (p # others)"
    then have "x \<in> set ?sorted" by (simp only: srt)
    then show "x \<in> set (models reg) \<and> validate_capabilities x ctx" by simp
  qed
  have "decision_sound reg ctx d"
    unfolding decision_sound_def d
    using mem by (auto simp: list_all_iff dest!: in_set_takeD intro!: passes_validation_member [OF assms(1)])
  then show ?thesis ..
qed

text \<open>
  Counterexample to claim C9 as stated. The registry's only model does not support tools
  and the context needs them: the router returns that model as primary, under the route
  name \<open>fallback_no_match\<close>, and it does not pass capability validation.
\<close>

theorem no_match_route_unsound:
  "route no_regex no_tools_registry (plain_context\<lparr>tools_enabled := True\<rparr>) None =
     Inr \<lparr>primary_model_id = ''basic'', fallback_model_ids = [], route_name = ''fallback_no_match'',
          route_reason = ''No models meet all requirements'', timeout_ms = 30000\<rparr> \<and>
   \<not> passes_validation no_tools_registry (plain_context\<lparr>tools_enabled := True\<rparr>) ''basic'' \<and>
   \<not> decision_sound no_tools_registry (plain_context\<lparr>tools_enabled := True\<rparr>)
       \<lparr>primary_model_id = ''basic'', fallback_model_ids = [], route_name = ''fallback_no_match'',
        route_reason = ''No models meet all requirements'', timeout_ms = 30000\<rparr>"
  by code_simp

text \<open>
  Claim C9, amended: for a registry whose model ids are unique, every decision that
  \<open>route\<close> returns satisfies one of two things. Either its primary model and every model
  of its fallback chain pass capability validation against the context; or no registered
  model passes capability validation, and the decision is the first registered model with
  an empty fallback chain and the route name \<open>fallback_no_match\<close>.
\<close>

theorem route_sound_unless_no_model_feasible:
  assumes "distinct (map id_spec (models reg))" and "route re_search reg ctx ov = Inr d"
  shows "decision_sound reg ctx d \<or>
         (\<not> list_ex (\<lambda>m. validate_capabilities m ctx) (models reg) \<and>
          route_name d = ''fallback_no_match'' \<and> fallback_model_ids d = [] \<and>
          [primary_model_id d] = map id_spec (take 1 (models reg)))"
proof (cases "route_override reg ctx ov")
  case (Some d')
  with assms(2) have "d = d'" by (simp add: route_def)
  with route_override_sound [OF assms(1) Some] show ?thesis by simp
next
  case None
  show ?thesis
  proof (cases "route_rules re_search reg ctx (get_routes reg)")
    case (Some d')
    with assms(2) None have "d = d'" by (simp add: route_def)
    with route_rules_sound [OF Some] show ?thesis by simp
  next
    case None2: None
    with assms(2) None have "get_default_route reg ctx = Inr d" by (simp add: route_def)
    then show ?thesis by (rule get_default_route_sound [OF assms(1)])
  qed
qed

text \<open>The theorem at a registry with a route for code blocks and a message that has one.\<close>

theorem route_sound_witness:
  "distinct (map id_spec (models (example_registry\<lparr>routes := [coding_route]\<rparr>))) \<and>
   route no_regex (example_registry\<lparr>routes := [coding_route]\<rparr>) (plain_context\<lparr>has_code_block := True\<rparr>) None =
     Inr \<lparr>primary_model_id = ''model1'', fallback_model_ids = [''model2''], route_name = ''coding'',
          route_reason = build_route_reason coding_route (plain_context\<lparr>has_code_block := True\<rparr>),
          timeout_ms = 45000\<rparr> \<and>
   decision_sound (example_registry\<lparr>routes := [coding_route]\<rparr>) (plain_context\<lparr>has_code_block := True\<rparr>)
     \<lparr>primary_model_id = ''model1'', fallback_model_ids = [''model2''], route_name = ''coding'',
      route_reason = build_route_reason coding_route (plain_context\<lparr>has_code_block := True\<rparr>),
      timeout_ms = 45000\<rparr>"
proof -
  let ?reg = "example_registry\<lparr>routes := [coding_route]\<rparr>"
  let ?ctx = "plain_context\<lparr>has_code_block := True\<rparr>"
  let ?d = "\<lparr>primary_model_id = ''model1'', fallback_model_ids = [''model2''], route_name = ''coding'',
          route_reason = build_route_reason coding_route ?ctx, timeout_ms = 45000\<rparr>"
  have h1: "distinct (map id_spec (models ?reg))"
    by code_simp
  have h2: "route no_regex ?reg ?ctx None = Inr ?d"
    by code_simp
  from route_sound_unless_no_model_feasible [OF h1 h2] h1 h2 show ?thesis
    by simp
qed

text \<open>
  Why the ids are taken to be unique: the router picks its default candidates from the
  list of models, the lookup by id answers with the last model of that id. With one id
  listed twice the default route can name an id whose lookup fails validation.
\<close>

lemma duplicate_ids_route_unsound:
  "route no_regex duplicate_id_registry (plain_context\<lparr>tools_enabled := True\<rparr>) None =
     Inr \<lparr>primary_model_id = ''twin'', fallback_model_ids = [], route_name = ''default'',
          route_reason = ''Default routing: fast and cost-effective'', timeout_ms = 30000\<rparr> \<and>
   \<not> passes_validation duplicate_id_registry (plain_context\<lparr>tools_enabled := True\<rparr>) ''twin''"
  by code_simp

section \<open>What does hold of the breaker, the injection and the reranker\<close>

lemma breaker_ok_init: "breaker_ok (CircuitBreakerState_init a b c)"
  by (simp add: breaker_ok_def CircuitBreakerState_init_def)

lemma record_success_ok: "breaker_ok b \<Longrightarrow> breaker_ok (record_success b)"
  by (auto simp: breaker_ok_def record_success_def Let_def)

lemma record_failure_ok: "breaker_ok b \<Longrightarrow> breaker_ok (record_failure t1 t2 b)"
  by (auto simp: breaker_ok_def record_failure_def Let_def)

lemma can_attempt_ok:
  "breaker_ok b \<Longrightarrow> \<exists>ok b'. can_attempt now b = Inr (ok, b') \<and> breaker_ok b'"
  by (cases "state b") (auto simp: breaker_ok_def can_attempt_def)

text \<open>
  From a breaker whose open state has an opening time, no sequence of operations raises,
  and an open breaker always has its opening time.
\<close>

lemma run_breaker_ops_ok:
  "breaker_ok b \<Longrightarrow> \<exists>b'. run_breaker_ops b ops = Inr b' \<and> breaker_ok b'"
proof (induction ops arbitrary: b)
  case Nil
  then show ?case by simp
next
  case (Cons x ops)
  have "\<exists>b1. apply_breaker_op b x = Inr b1 \<and> breaker_ok b1"
  proof (cases x)
    case RecordSuccess
    with Cons.prems show ?thesis by (simp add: record_success_ok)
  next
    case (RecordFailure t1 t2)
    with Cons.prems show ?thesis by (simp add: record_failure_ok)
  next
    case (CanAttempt now)
    from can_attempt_ok [OF Cons.prems, of now] CanAttempt show ?thesis by auto
  qed
  then obtain b1 where "apply_breaker_op b x = Inr b1" and "breaker_ok b1" by blast
  with Cons.IH [of b1] show ?case by simp
qed

text \<open>
  With no chunks the caller's list comes back as it is; the \<open>system\<close> strategy only adds
  objects to the store and leaves every object of the caller as it was.
\<close>

lemma inject_empty_returns_input:
  "inject_chunks_into_prompt h a [] strategy = Inr (h, a)"
  by (simp add: inject_chunks_into_prompt_def)

lemma inject_system_keeps_store:
  assumes "inject_chunks_into_prompt h a ranked ''system'' = Inr (h', a')"
  shows "take (length h) h' = h"
  using assms
  by (auto simp: inject_chunks_into_prompt_def Let_def split: if_splits obj.splits)

text \<open>
  Whatever \<open>top_k\<close> is, the chunks \<open>rerank\<close> returns are in descending order of final
  score and their previews have at most 403 characters; a positive \<open>top_k\<close> bounds their
  number.
\<close>

lemma make_preview_length: "length (make_preview text) \<le> 403"
  by (simp add: make_preview_def)

lemma score_chunks_previews:
  "score_chunks P q avg idf zs = Inr ranked \<Longrightarrow> list_all (\<lambda>x. length (preview x) \<le> 403) ranked"
proof (induction zs arbitrary: ranked)
  case Nil
  then show ?case by simp
next
  case (Cons z zs)
  obtain c n where z: "z = (c, n)" by (cases z)
  from Cons.prems obtain lex rest where
    "score_chunks P q avg idf zs = Inr rest" and
    "ranked = \<lparr>chunk = c, ranked_vector_score = vector_score c, rerank_score = lex,
                final_score = vector_weight P * vector_score c + lexical_weight P * lex,
                preview = make_preview (content c)\<rparr> # rest"
    by (auto simp: z split: sum.splits)
  with Cons.IH show ?case by (simp add: make_preview_length)
qed

lemma slice_to_take: "\<exists>n. slice_to k xs = take n xs"
  by (auto simp: slice_to_def)

lemma slice_to_length: "k > 0 \<Longrightarrow> length (slice_to k xs) \<le> nat k"
  by (simp add: slice_to_def)

lemma sort_key_descending:
  "sorted_wrt (\<lambda>a b. final_score a \<ge> final_score b) (sort_key (\<lambda>x. - final_score x) xs)"
proof -
  have "sorted (map (\<lambda>x. - final_score x) (sort_key (\<lambda>x. - final_score x) xs))"
    by (rule sorted_sort_key)
  then show ?thesis by (simp add: sorted_map)
qed

lemma rerank_shape:
  assumes "rerank P t0 t1 q chunks top_k = Inr r"
  shows "\<exists>q' avg idf zs ranked n.
           score_chunks P q' avg idf zs = Inr ranked \<and>
           ranked_chunks r = take n (sort_key (\<lambda>x. - final_score x) ranked) \<and>
           (\<forall>k. top_k = Some k \<and> k > 0 \<longrightarrow> n \<le> nat k)"
proof (cases "chunks = []")
  case True
  with assms have "ranked_chunks r = take 0 (sort_key (\<lambda>x. - final_score x) [])"
    by (auto simp: rerank_def)
  moreover have "score_chunks P [] 0 [] [] = Inr []" by simp
  ultimately show ?thesis by blast
next
  case False
  with assms obtain q' avg idf zs ranked where
    sc: "score_chunks P q' avg idf zs = Inr ranked"
    and sel: "ranked_chunks r =
           (case top_k of None \<Rightarrow> sort_key (\<lambda>x. - final_score x) ranked
            | Some k \<Rightarrow> if k \<noteq> 0 then slice_to k (sort_key (\<lambda>x. - final_score x) ranked)
                        else sort_key (\<lambda>x. - final_score x) ranked)"
    by (auto simp: rerank_def Let_def split: sum.splits)
  let ?sorted = "sort_key (\<lambda>x. - final_score x) ranked"
  have "\<exists>n. ranked_chunks r = take n ?sorted \<and> (\<forall>k. top_k = Some k \<and> k > 0 \<longrightarrow> n \<le> nat k)"
  proof (cases top_k)
    case None
    with sel have "ranked_chunks r = take (length ?sorted) ?sorted" by simp
    with None show ?thesis by (intro exI [of _ "length ?sorted"]) simp
  next
    case (Some k')
    show ?thesis
    proof (cases "k' > 0")
      case True
      with sel Some have "ranked_chunks r = take (nat k') ?sorted" by (simp add: slice_to_def)
      with Some show ?thesis by (intro exI [of _ "nat k'"]) simp
    next
      case False
      from slice_to_take obtain n' where n': "slice_to k' ?sorted = take n' ?sorted" by blast
      show ?thesis
      proof (cases "k' = 0")
        case True
        with sel Some have "ranked_chunks r = take (length ?sorted) ?sorted" by simp
        with Some True show ?thesis by (intro exI [of _ "length ?sorted"]) simp
      next
        case nz: False
        with sel Some n' have "ranked_chunks r = take n' ?sorted" by simp
        with Some False show ?thesis by (intro exI [of _ n']) simp
      qed
    qed
  qed
  with sc show ?thesis by blast
qed

lemma rerank_sorted_descending:
  assumes "rerank P t0 t1 q chunks top_k = Inr r"
  shows "sorted_wrt (\<lambda>a b. final_score a \<ge> final_score b) (ranked_chunks r)"
proof -
  from rerank_shape [OF assms] obtain ranked n where
    "ranked_chunks r = take n (sort_key (\<lambda>x. - final_score x) ranked)" by blast
  with sort_key_descending [of ranked] show ?thesis by (simp add: sorted_wrt_take)
qed

lemma rerank_previews_bounded:
  assumes "rerank P t0 t1 q chunks top_k = Inr r"
  shows "list_all (\<lambda>x. length (preview x) \<le> 403) (ranked_chunks r)"
proof -
  from rerank_shape [OF assms] obtain q' avg idf zs ranked n where
    sc: "score_chunks P q' avg idf zs = Inr ranked" and
    n: "ranked_chunks r = take n (sort_key (\<lambda>x. - final_score x) ranked)" by blast
  from score_chunks_previews [OF sc] show ?thesis
    unfolding n by (auto simp: list_all_iff dest: in_set_takeD)
qed

lemma rerank_positive_top_k:
  assumes "rerank P t0 t1 q chunks (Some k) = Inr r" and "k > 0"
  shows "length (ranked_chunks r) \<le> nat k"
proof -
  from rerank_shape [OF assms(1)] assms(2) obtain ranked n where
    "ranked_chunks r = take n (sort_key (\<lambda>x. - final_score x) ranked)" and "n \<le> nat k" by blast
  then show ?thesis by simp
qed

end
